theory Spec2Isabelle
  imports Main "HOL-Library.Word"
begin

section \<open>The match store of targetmem.h\<close>

text \<open>
  The store is one heap block: the two words \<open>bytes_allocated\<close> and \<open>max_needed_bytes\<close>,
  then swaths laid out back to back. A swath is a header (\<open>first_byte_in_child\<close>,
  \<open>number_of_bytes\<close>) followed by that many \<open>old_value_and_match_info\<close> entries; the
  next swath starts right behind the last entry. The source reaches everything through
  pointer arithmetic on \<open>void *\<close>, so the model keeps addresses: pointers and
  \<open>unsigned long\<close> are 64-bit words (LP64), and the block's content is a map from byte
  offsets to typed cells.
\<close>

type_synonym addr = "64 word"
type_synonym ulong = "64 word"

text \<open>
  \<open>match_flags\<close> is declared in value.h, which is not among the sources. The fields are
  the ones the sources read and write (\<open>data_to_val_aux\<close>, \<open>handler__list\<close>).
\<close>

record match_flags =
  u8b :: bool
  s8b :: bool
  u16b :: bool
  s16b :: bool
  u32b :: bool
  s32b :: bool
  u64b :: bool
  s64b :: bool
  f32b :: bool
  f64b :: bool
  bytearray_length :: nat
  string_length :: nat

definition zero_match_flags :: match_flags where
  "zero_match_flags =
     \<lparr>u8b = False, s8b = False, u16b = False, s16b = False, u32b = False, s32b = False,
      u64b = False, s64b = False, f32b = False, f64b = False,
      bytearray_length = 0, string_length = 0\<rparr>"

record old_value_and_match_info =
  old_value :: "8 word"
  match_info :: match_flags

text \<open>
  A cell is what one store through a typed pointer leaves in the block: a pointer (a
  swath's \<open>first_byte_in_child\<close>), an \<open>unsigned long\<close> (its \<open>number_of_bytes\<close>) or one
  entry. \<open>location\<close> is the address of the block, the value of the C pointer to the
  array; \<open>cells\<close> maps the byte offset from there to the cell that starts at it, and
  \<open>None\<close> marks bytes that were never written. A pointer \<open>p\<close> into the block reads
  and writes the cell at offset \<open>p - location\<close>.
\<close>

datatype cell = Ptr addr | ULong ulong | Entry old_value_and_match_info

record matches_and_old_values_array =
  location :: addr
  bytes_allocated :: ulong
  max_needed_bytes :: ulong
  cells :: "ulong \<Rightarrow> cell option"

definition cell_at :: "matches_and_old_values_array \<Rightarrow> addr \<Rightarrow> cell option" where
  "cell_at arr p = cells arr (p - location arr)"

definition write_cell :: "matches_and_old_values_array \<Rightarrow> addr \<Rightarrow> cell \<Rightarrow> matches_and_old_values_array" where
  "write_cell arr p c = arr\<lparr>cells := (cells arr)(p - location arr \<mapsto> c)\<rparr>"

text \<open>
  The ways a call can fail to return a result: an \<open>assert\<close> that does not hold, a loop
  that never ends, going on with a store that could not be grown, a read of a cell that
  holds no value of the type read, and a read through a null pointer.
\<close>

datatype error = Assert_failed | Diverges | Null_store | Invalid_read | Null_dereference

subsection \<open>allocate_enough_to_reach\<close>

text \<open>
  The doubling loop \<open>while (bytes_to_alloc < bytes_needed) bytes_to_alloc *= 2;\<close> on
  \<open>unsigned long\<close>. The product wraps, so the loop need not end (from 0 it never does):
  \<open>None\<close> stands for a loop that runs forever.
\<close>

partial_function (option) double_until :: "ulong \<Rightarrow> ulong \<Rightarrow> ulong option" where
  "double_until bytes_to_alloc bytes_needed =
     (if bytes_to_alloc < bytes_needed then double_until (bytes_to_alloc * 2) bytes_needed
      else Some bytes_to_alloc)"

declare double_until.simps [code]

text \<open>
  What a call leaves behind: the pointer it returns (0 is NULL), the live block (on a
  failed \<open>realloc\<close> the old block, untouched), the caller's swath cursor
  (\<open>None\<close> when \<open>swath_ptr_to_correct\<close> is NULL) and the calls made to \<open>realloc\<close>.
  \<open>realloc\<close> belongs to the C library and is a parameter: it maps the old pointer and
  the new size to the new pointer, or to 0. A block that moves keeps its content up to
  the old size; what lies beyond is indeterminate.
\<close>

record grown =
  returned :: addr
  block :: matches_and_old_values_array
  swath_ptr :: "addr option"
  realloc_calls :: "(addr \<times> ulong) list"

definition allocate_enough_to_reach ::
  "(addr \<Rightarrow> ulong \<Rightarrow> addr) \<Rightarrow> matches_and_old_values_array \<Rightarrow> addr \<Rightarrow> addr option
     \<Rightarrow> error + grown" where
  "allocate_enough_to_reach realloc arr last_byte_to_reach_plus_one swath_ptr_to_correct =
     (let bytes_needed = last_byte_to_reach_plus_one - location arr in
      if bytes_needed \<le> bytes_allocated arr then
        Inr \<lparr>returned = location arr, block = arr, swath_ptr = swath_ptr_to_correct,
             realloc_calls = []\<rparr>
      else
        (case double_until (bytes_allocated arr) bytes_needed of
           None \<Rightarrow> Inl Diverges
         | Some doubled \<Rightarrow>
             if max_needed_bytes arr < doubled \<and> \<not> bytes_needed \<le> max_needed_bytes arr
             then Inl Assert_failed
             else
               (let bytes_to_alloc =
                      (if max_needed_bytes arr < doubled then max_needed_bytes arr else doubled);
                    new_location = realloc (location arr) bytes_to_alloc
                in if new_location = 0 then
                     Inr \<lparr>returned = 0, block = arr, swath_ptr = swath_ptr_to_correct,
                          realloc_calls = [(location arr, bytes_to_alloc)]\<rparr>
                   else
                     Inr \<lparr>returned = new_location,
                          block = \<lparr>location = new_location, bytes_allocated = bytes_to_alloc,
                                   max_needed_bytes = max_needed_bytes arr,
                                   cells = (\<lambda>off. if off < bytes_allocated arr
                                                   then cells arr off else None)\<rparr>,
                          swath_ptr = map_option (\<lambda>swath. swath + (new_location - location arr))
                                        swath_ptr_to_correct,
                          realloc_calls = [(location arr, bytes_to_alloc)]\<rparr>)))"

subsection \<open>Swath accessors\<close>

text \<open>
  \<open>sizeof(matches_and_old_values_swath)\<close> is a pointer and an \<open>unsigned long\<close>: 16
  bytes. \<open>sizeof(old_value_and_match_info)\<close> depends on value.h and is the parameter
  \<open>esz\<close> throughout. Reading a field through a pointer that does not hold a cell of the
  field's type has no meaning in C; the model makes such a read fail.
\<close>

definition sizeof_swath :: ulong where
  "sizeof_swath = 16"

definition swath_first_byte_in_child :: "matches_and_old_values_array \<Rightarrow> addr \<Rightarrow> addr option" where
  "swath_first_byte_in_child arr swath =
     (case cell_at arr swath of Some (Ptr a) \<Rightarrow> Some a | _ \<Rightarrow> None)"

definition swath_number_of_bytes :: "matches_and_old_values_array \<Rightarrow> addr \<Rightarrow> ulong option" where
  "swath_number_of_bytes arr swath =
     (case cell_at arr (swath + 8) of Some (ULong n) \<Rightarrow> Some n | _ \<Rightarrow> None)"

text \<open>The address of \<open>swath->data[n]\<close>.\<close>

definition data_addr :: "ulong \<Rightarrow> addr \<Rightarrow> ulong \<Rightarrow> addr" where
  "data_addr esz swath n = swath + sizeof_swath + n * esz"

definition swath_data :: "ulong \<Rightarrow> matches_and_old_values_array \<Rightarrow> addr \<Rightarrow> ulong
     \<Rightarrow> old_value_and_match_info option" where
  "swath_data esz arr swath n =
     (case cell_at arr (data_addr esz swath n) of Some (Entry e) \<Rightarrow> Some e | _ \<Rightarrow> None)"

definition index_of_last_element :: "matches_and_old_values_array \<Rightarrow> addr \<Rightarrow> ulong option" where
  "index_of_last_element arr swath = map_option (\<lambda>n. n - 1) (swath_number_of_bytes arr swath)"

definition remote_address_of_nth_element ::
  "matches_and_old_values_array \<Rightarrow> addr \<Rightarrow> ulong \<Rightarrow> addr option" where
  "remote_address_of_nth_element arr swath n =
     map_option (\<lambda>first. first + n) (swath_first_byte_in_child arr swath)"

definition remote_address_of_last_element :: "matches_and_old_values_array \<Rightarrow> addr \<Rightarrow> addr option" where
  "remote_address_of_last_element arr swath =
     Option.bind (index_of_last_element arr swath) (remote_address_of_nth_element arr swath)"

definition local_address_beyond_nth_element :: "ulong \<Rightarrow> addr \<Rightarrow> ulong \<Rightarrow> addr" where
  "local_address_beyond_nth_element esz swath n = data_addr esz swath (n + 1)"

definition local_address_beyond_last_element ::
  "ulong \<Rightarrow> matches_and_old_values_array \<Rightarrow> addr \<Rightarrow> addr option" where
  "local_address_beyond_last_element esz arr swath =
     map_option (local_address_beyond_nth_element esz swath) (index_of_last_element arr swath)"

subsection \<open>add_element\<close>

text \<open>
  The source as given names two variables it never declares: the test reads
  \<open>needed_size\<close> where \<open>needed_sz\<close> is declared, and the third \<open>memset\<close> reads
  \<open>local_address_excess\<close> where \<open>local_addr_excess\<close> is. The model reads each as the
  declared variable of the same role; the three \<open>memset\<close> cases then zero the same
  \<open>local_addr_excess\<close> bytes.

  \<open>memset\<close> to zero over whole entries leaves entries with \<open>old_value\<close> 0 and no flag.
\<close>

definition zero_entry :: old_value_and_match_info where
  "zero_entry = \<lparr>old_value = 0, match_info = zero_match_flags\<rparr>"

definition memset_zero ::
  "ulong \<Rightarrow> matches_and_old_values_array \<Rightarrow> addr \<Rightarrow> ulong \<Rightarrow> matches_and_old_values_array" where
  "memset_zero esz arr dst nbytes =
     fold (\<lambda>i a. write_cell a (dst + of_nat i * esz) (Entry zero_entry))
       [0..<unat nbytes div unat esz] arr"

definition of_read :: "'a option \<Rightarrow> error + 'a" where
  "of_read r = (case r of None \<Rightarrow> Inl Invalid_read | Some x \<Rightarrow> Inr x)"

text \<open>
  \<open>*arr = allocate_enough_to_reach(*arr, reach, &swath)\<close>: the block and the cursor after
  the call. When the routine returns NULL the source stores NULL into \<open>*arr\<close> and goes
  on to write through the cursor, beyond the old block: undefined behaviour, where the
  model stops with \<open>Null_store\<close>.
\<close>

definition grow_to ::
  "(addr \<Rightarrow> ulong \<Rightarrow> addr) \<Rightarrow> matches_and_old_values_array \<Rightarrow> addr \<Rightarrow> addr
     \<Rightarrow> error + matches_and_old_values_array \<times> addr" where
  "grow_to realloc arr reach swath =
     (case allocate_enough_to_reach realloc arr reach (Some swath) of
        Inl e \<Rightarrow> Inl e
      | Inr g \<Rightarrow>
          if returned g = 0 then Inl Null_store
          else (case swath_ptr g of None \<Rightarrow> Inl Invalid_read | Some swath' \<Rightarrow> Inr (block g, swath')))"

text \<open>The tail of \<open>add_element\<close>: store the element behind the last one, then count it.\<close>

definition add_me ::
  "ulong \<Rightarrow> matches_and_old_values_array \<Rightarrow> addr \<Rightarrow> old_value_and_match_info
     \<Rightarrow> error + matches_and_old_values_array \<times> addr" where
  "add_me esz arr swath new_elem =
     (case of_read (local_address_beyond_last_element esz arr swath) of
        Inl e \<Rightarrow> Inl e
      | Inr beyond \<Rightarrow>
          (let arr1 = write_cell arr beyond (Entry new_elem) in
           case of_read (swath_number_of_bytes arr1 swath) of
             Inl e \<Rightarrow> Inl e
           | Inr n \<Rightarrow> Inr (write_cell arr1 (swath + 8) (ULong (n + 1)), swath)))"

definition add_element ::
  "ulong \<Rightarrow> (addr \<Rightarrow> ulong \<Rightarrow> addr) \<Rightarrow> matches_and_old_values_array \<Rightarrow> addr \<Rightarrow> addr
     \<Rightarrow> old_value_and_match_info \<Rightarrow> error + matches_and_old_values_array \<times> addr" where
  "add_element esz realloc arr swath remote_addr new_elem =
     (case of_read (swath_number_of_bytes arr swath) of
        Inl e \<Rightarrow> Inl e
      | Inr n \<Rightarrow>
          if n = 0 then
            (case of_read (swath_first_byte_in_child arr swath) of
               Inl e \<Rightarrow> Inl e
             | Inr first \<Rightarrow>
                 if first \<noteq> 0 then Inl Assert_failed
                 else
                   (case grow_to realloc arr (swath + sizeof_swath + esz) swath of
                      Inl e \<Rightarrow> Inl e
                    | Inr (arr1, swath1) \<Rightarrow>
                        add_me esz (write_cell arr1 swath1 (Ptr remote_addr)) swath1 new_elem))
          else
            (case of_read (remote_address_of_last_element arr swath) of
               Inl e \<Rightarrow> Inl e
             | Inr last_remote \<Rightarrow>
                 (let local_idx_excess = remote_addr - last_remote;
                      local_addr_excess = local_idx_excess * esz;
                      needed_sz = sizeof_swath + esz
                  in case of_read (local_address_beyond_last_element esz arr swath) of
                       Inl e \<Rightarrow> Inl e
                     | Inr beyond \<Rightarrow>
                         if local_addr_excess \<ge> needed_sz then
                           (case grow_to realloc arr (beyond + sizeof_swath + esz) swath of
                              Inl e \<Rightarrow> Inl e
                            | Inr (arr1, swath1) \<Rightarrow>
                                (case of_read (local_address_beyond_last_element esz arr1 swath1) of
                                   Inl e \<Rightarrow> Inl e
                                 | Inr swath2 \<Rightarrow>
                                     add_me esz
                                       (write_cell (write_cell arr1 swath2 (Ptr remote_addr))
                                          (swath2 + 8) (ULong 0))
                                       swath2 new_elem))
                         else
                           (case grow_to realloc arr (beyond + local_addr_excess) swath of
                              Inl e \<Rightarrow> Inl e
                            | Inr (arr1, swath1) \<Rightarrow>
                                (case of_read (local_address_beyond_last_element esz arr1 swath1) of
                                   Inl e \<Rightarrow> Inl e
                                 | Inr beyond1 \<Rightarrow>
                                     (let arr2 = memset_zero esz arr1 beyond1 local_addr_excess in
                                      case of_read (swath_number_of_bytes arr2 swath1) of
                                        Inl e \<Rightarrow> Inl e
                                      | Inr n1 \<Rightarrow>
                                          add_me esz
                                            (write_cell arr2 (swath1 + 8)
                                               (ULong (n1 + (local_idx_excess - 1))))
                                            swath1 new_elem))))))"

subsection \<open>data_to_val\<close>

text \<open>
  \<open>value_t\<close> (value.h, not among the sources) is a union of the numeric types with the
  flags beside it. \<open>data_to_val_aux\<close> fills the union byte by byte through a
  \<open>uint8_t\<close> pointer, so the model keeps the union as its 8 bytes of storage, byte
  \<open>i\<close> of the list being the byte at offset \<open>i\<close>. \<open>zero_value\<close> clears all of it.
\<close>

record value_t =
  value_bytes :: "8 word list"
  flags :: match_flags

definition zero_value :: value_t where
  "zero_value = \<lparr>value_bytes = replicate 8 0, flags = zero_match_flags\<rparr>"

text \<open>
  The loop \<open>for (i = 0; i < max_bytes; i++)\<close> over the indices it visits: each step
  reads \<open>data[idx + i].old_value\<close> and stores it at byte \<open>i\<close>.
\<close>

fun copy_old_values ::
  "ulong \<Rightarrow> matches_and_old_values_array \<Rightarrow> addr \<Rightarrow> ulong \<Rightarrow> nat list \<Rightarrow> 8 word list
     \<Rightarrow> error + 8 word list" where
  "copy_old_values esz arr swath idx [] bytes = Inr bytes"
| "copy_old_values esz arr swath idx (i # is) bytes =
     (case swath_data esz arr swath (idx + of_nat i) of
        None \<Rightarrow> Inl Invalid_read
      | Some e \<Rightarrow> copy_old_values esz arr swath idx is (bytes[i := old_value e]))"

text \<open>
  \<open>int max_bytes = swath_len - idx;\<close> subtracts two \<open>long\<close> and keeps the low 32 bits,
  read as a signed \<open>int\<close>.
\<close>

definition data_to_val_aux ::
  "ulong \<Rightarrow> matches_and_old_values_array \<Rightarrow> addr \<Rightarrow> ulong \<Rightarrow> ulong \<Rightarrow> error + value_t" where
  "data_to_val_aux esz arr swath idx swath_len =
     (let max_bytes0 = sint (ucast (swath_len - idx) :: 32 word);
          max_bytes = (if max_bytes0 > 8 then 8 else max_bytes0);
          val_flags = zero_match_flags
            \<lparr>u8b := max_bytes \<ge> 1, s8b := max_bytes \<ge> 1,
             u16b := max_bytes \<ge> 2, s16b := max_bytes \<ge> 2,
             u32b := max_bytes \<ge> 4, s32b := max_bytes \<ge> 4,
             u64b := max_bytes \<ge> 8, s64b := max_bytes \<ge> 8,
             f32b := max_bytes \<ge> 4, f64b := max_bytes \<ge> 8\<rparr>
      in case copy_old_values esz arr swath idx [0..<nat max_bytes] (value_bytes zero_value) of
           Inl e \<Rightarrow> Inl e
         | Inr bytes \<Rightarrow> Inr \<lparr>value_bytes = bytes, flags = val_flags\<rparr>)"

definition data_to_val ::
  "ulong \<Rightarrow> matches_and_old_values_array \<Rightarrow> addr \<Rightarrow> ulong \<Rightarrow> error + value_t" where
  "data_to_val esz arr swath idx =
     (case swath_number_of_bytes arr swath of
        None \<Rightarrow> Inl Invalid_read
      | Some n \<Rightarrow> data_to_val_aux esz arr swath idx n)"

text \<open>
  A freshly allocated store as \<open>allocate_array\<close> leaves it: 32 bytes at 0x1000, holding
  the array header and one terminator swath (null \<open>first_byte_in_child\<close>, no bytes).
\<close>

definition example_array :: matches_and_old_values_array where
  "example_array =
     \<lparr>location = 0x1000, bytes_allocated = 32, max_needed_bytes = 4096,
      cells = [16 \<mapsto> Ptr 0, 24 \<mapsto> ULong 0]\<rparr>"

text \<open>
  A store of 4096 bytes with one swath at 0x1010: it covers the single target address
  0x400000 and is followed by the terminator. Entries are taken to be 4 bytes wide here.
\<close>

definition one_swath_array :: matches_and_old_values_array where
  "one_swath_array =
     \<lparr>location = 0x1000, bytes_allocated = 4096, max_needed_bytes = 4096,
      cells = [16 \<mapsto> Ptr 0x400000, 24 \<mapsto> ULong 1,
               32 \<mapsto> Entry \<lparr>old_value = 7, match_info = zero_match_flags\<lparr>u8b := True\<rparr>\<rparr>,
               36 \<mapsto> Ptr 0, 44 \<mapsto> ULong 0]\<rparr>"

definition example_entry :: old_value_and_match_info where
  "example_entry = \<lparr>old_value = 9, match_info = zero_match_flags\<lparr>u8b := True\<rparr>\<rparr>"

text \<open>
  A store whose one swath covers \<open>2 ^ 31\<close> target addresses from 0x400000 on, every
  entry holding the old value 0xAA; with 4-byte entries it takes 8 GiB and 32 bytes.
\<close>

definition huge_swath_array :: matches_and_old_values_array where
  "huge_swath_array =
     \<lparr>location = 0x1000, bytes_allocated = 0x200000020, max_needed_bytes = 0x200000030,
      cells = (\<lambda>off. if off = 16 then Some (Ptr 0x400000)
                     else if off = 24 then Some (ULong 0x80000000)
                     else Some (Entry \<lparr>old_value = 0xAA,
                                       match_info = zero_match_flags\<lparr>u8b := True\<rparr>\<rparr>))\<rparr>"

section \<open>The command handlers of handlers.c\<close>

subsection \<open>The session\<close>

text \<open>
  The handlers modelled here use the store through \<open>nth_match\<close> and
  \<open>delete_by_region\<close> of targetmem.c, which is not among the sources, and through the
  entries of the swath that a location names; none of them depends on where the swaths
  lie in the block. Here the store is what those functions walk: the swaths before the terminator,
  in order, each with the target address of its first entry and its entries
  (\<open>number_of_bytes\<close> is their number). A \<open>match_location\<close> (fields \<open>swath\<close> and \<open>index\<close> in the source)
  names a swath by its position in that sequence; \<open>None\<close> is the null swath pointer.
\<close>

record matches_and_old_values_swath =
  first_byte_in_child :: addr
  data :: "old_value_and_match_info list"

record match_location =
  loc_swath :: "nat option"
  loc_index :: nat

text \<open>
  \<open>region_t\<close> (maps.h) and \<open>globals_t\<close> (scanmem.h) are not among the sources; the
  records hold the fields the handlers use. \<open>num_matches\<close> is a \<open>long\<close>, the region
  id an \<open>unsigned\<close>, the target a \<open>pid_t\<close>. The scan data types are those of value.h
  (not among the sources either), under the names that \<open>handler__option\<close> sets.
\<close>

datatype scan_data_type_t =
    ANYNUMBER | ANYINTEGER | ANYFLOAT | INTEGER8 | INTEGER16 | INTEGER32 | INTEGER64
  | FLOAT32 | FLOAT64 | BYTEARRAY | STRING

record region_t =
  region_id :: "32 word"
  region_start :: addr
  region_size :: ulong

record options_t =
  backend :: nat
  dump_with_ascii :: nat
  scan_data_type :: scan_data_type_t

record globals_t =
  matches :: "matches_and_old_values_swath list option"
  num_matches :: "64 word"
  regions :: "region_t list"
  target :: "32 word"
  options :: options_t

text \<open>
  The match types of scanroutines.h (not among the sources), under the names the
  handlers use for them.
\<close>

datatype scan_match_type_t =
    MATCHANY | MATCHEQUALTO | MATCHNOTEQUALTO | MATCHGREATERTHAN | MATCHLESSTHAN | MATCHRANGE
  | MATCHCHANGED | MATCHNOTCHANGED | MATCHINCREASED | MATCHDECREASED
  | MATCHINCREASEDBY | MATCHDECREASEDBY

text \<open>
  What a handler does besides changing the session: the messages it shows, the scans it
  starts, its calls of target I/O (with the target they name) and its sleeps (in
  seconds). A message is its format string (without the final newline) and the
  arguments that fill it. A handler returns its Boolean result, the session and these
  events in order.
\<close>

datatype arg = Str string | Num nat

datatype 'u event =
    Show_error string "arg list"
  | Show_warn string "arg list"
  | Show_info string "arg list"
  | Sm_searchregions scan_match_type_t 'u
  | Sm_checkmatches scan_match_type_t 'u
  | Sm_attach "32 word"
  | Sm_peekdata "32 word" addr
  | Sm_detach "32 word"
  | Sleep nat

subsection \<open>handler__decinc\<close>

text \<open>
  \<open>argv[0]\<close> is the command and \<open>args\<close> the words after it, so \<open>argc\<close> is
  \<open>1 + length args\<close>. \<open>parse_uservalue_number\<close>, \<open>zero_uservalue\<close>, \<open>sm_checkmatches\<close> and
  \<open>sm_searchregions\<close> live in files that are not among the sources and are parameters;
  a scan returns its result and the session it leaves.
\<close>

definition decinc_match_type :: "string \<Rightarrow> nat \<Rightarrow> scan_match_type_t option" where
  "decinc_match_type argv0 argc =
     (if argv0 = ''='' then Some (if argc = 1 then MATCHNOTCHANGED else MATCHEQUALTO)
      else if argv0 = ''!='' then Some (if argc = 1 then MATCHCHANGED else MATCHNOTEQUALTO)
      else if argv0 = ''<'' then Some (if argc = 1 then MATCHDECREASED else MATCHLESSTHAN)
      else if argv0 = ''>'' then Some (if argc = 1 then MATCHINCREASED else MATCHGREATERTHAN)
      else if argv0 = ''+'' then Some (if argc = 1 then MATCHINCREASED else MATCHINCREASEDBY)
      else if argv0 = ''-'' then Some (if argc = 1 then MATCHDECREASED else MATCHDECREASEDBY)
      else None)"

definition match_identified :: "globals_t \<Rightarrow> 'u event list" where
  \<open>match_identified vars =
     (if num_matches vars = 1
      then [Show_info ''match identified, use "set" to modify value.'' [],
            Show_info ''enter "help" for other commands.'' []]
      else [])\<close>

definition handler__decinc ::
  "(string \<Rightarrow> 'u option) \<Rightarrow> 'u
     \<Rightarrow> (globals_t \<Rightarrow> scan_match_type_t \<Rightarrow> 'u \<Rightarrow> bool \<times> globals_t)
     \<Rightarrow> (globals_t \<Rightarrow> scan_match_type_t \<Rightarrow> 'u \<Rightarrow> bool \<times> globals_t)
     \<Rightarrow> globals_t \<Rightarrow> string \<Rightarrow> string list \<Rightarrow> bool \<times> globals_t \<times> 'u event list" where
  "handler__decinc parse_uservalue_number zero_uservalue sm_checkmatches sm_searchregions
     vars argv0 args =
     (let argc = 1 + length args in
      if argc > 2 then
        (False, vars, [Show_error ''too many values specified, see `help %s`'' [Str argv0]])
      else
        (case (if argc = 1 then Some zero_uservalue else parse_uservalue_number (args ! 0)) of
           None \<Rightarrow>
             (False, vars, [Show_error ''bad value specified, see `help %s`'' [Str argv0]])
         | Some val \<Rightarrow>
             (case decinc_match_type argv0 argc of
                None \<Rightarrow>
                  (False, vars, [Show_error ''unrecognized match type seen at decinc handler.'' []])
              | Some m \<Rightarrow>
                  if matches vars \<noteq> None then
                    (case sm_checkmatches vars m val of
                       (ok, vars') \<Rightarrow>
                         if \<not> ok then
                           (False, vars',
                            [Sm_checkmatches m val,
                             Show_error ''failed to search target address space.'' []])
                         else (True, vars', Sm_checkmatches m val # match_identified vars'))
                  else if m = MATCHNOTCHANGED \<or> m = MATCHCHANGED \<or> m = MATCHDECREASED
                          \<or> m = MATCHINCREASED \<or> m = MATCHDECREASEDBY \<or> m = MATCHINCREASEDBY
                  then (False, vars, [Show_error ''cannot use that search without matches'' []])
                  else
                    (case sm_searchregions vars m val of
                       (ok, vars') \<Rightarrow>
                         if \<not> ok then
                           (False, vars',
                            [Sm_searchregions m val,
                             Show_error ''failed to search target address space.'' []])
                         else (True, vars', Sm_searchregions m val # match_identified vars')))))"

subsection \<open>nth_match and handler__delete\<close>

text \<open>
  Modelled from the spec: \<open>flags_to_max_width_in_bytes\<close> (value.h, not among the sources).
  The spec: the max width in bytes is the largest of the still-viable widths, and a byte
  with no viable width is not a real match. A byte-array or string candidate counts with
  its length, as \<open>handler__list\<close> takes every entry of positive width for a match and
  then prints \<open>bytearray_length\<close> or \<open>string_length\<close> bytes of it.
\<close>

definition flags_to_max_width_in_bytes :: "match_flags \<Rightarrow> nat" where
  "flags_to_max_width_in_bytes f =
     max (if u64b f \<or> s64b f \<or> f64b f then 8
          else if u32b f \<or> s32b f \<or> f32b f then 4
          else if u16b f \<or> s16b f then 2
          else if u8b f \<or> s8b f then 1
          else 0)
       (max (bytearray_length f) (string_length f))"

text \<open>
  Modelled from the spec: \<open>nth_match\<close> (targetmem.c, not among the sources). The spec: it
  walks the swaths in order, counting the entries with \<open>max_width_in_bytes > 0\<close>, and
  returns the location of the n-th such entry (0-indexed), or none when the store is
  exhausted. A session without a store resolves nothing.
\<close>

definition swath_matches :: "nat \<Rightarrow> matches_and_old_values_swath \<Rightarrow> (nat \<times> nat) list" where
  "swath_matches k sw =
     map (Pair k)
       (filter (\<lambda>i. flags_to_max_width_in_bytes (match_info (data sw ! i)) > 0)
          [0..<length (data sw)])"

fun match_locations :: "nat \<Rightarrow> matches_and_old_values_swath list \<Rightarrow> (nat \<times> nat) list" where
  "match_locations k [] = []"
| "match_locations k (sw # sws) = swath_matches k sw @ match_locations (Suc k) sws"

definition nth_match :: "matches_and_old_values_swath list option \<Rightarrow> 32 word \<Rightarrow> match_location" where
  "nth_match store n =
     (case store of
        None \<Rightarrow> \<lparr>loc_swath = None, loc_index = 0\<rparr>
      | Some sws \<Rightarrow>
          (let locs = match_locations 0 sws in
           if unat n < length locs
           then \<lparr>loc_swath = Some (fst (locs ! unat n)), loc_index = snd (locs ! unat n)\<rparr>
           else \<lparr>loc_swath = None, loc_index = 0\<rparr>))"

text \<open>
  \<open>zero_match_flags(&loc.swath->data[loc.index].match_info)\<close>: the entry at a location
  loses its flags and keeps its old value.
\<close>

definition clear_match_info ::
  "matches_and_old_values_swath list \<Rightarrow> nat \<Rightarrow> nat \<Rightarrow> matches_and_old_values_swath list" where
  "clear_match_info sws k i =
     sws[k := (sws ! k)\<lparr>data := (data (sws ! k))
                [i := (data (sws ! k) ! i)\<lparr>match_info := zero_match_flags\<rparr>]\<rparr>]"

text \<open>
  \<open>strtoul\<close> belongs to the C library and is a parameter: from the string and the base
  it gives the number and the rest of the string that it did not read (what \<open>end\<close>
  points to). The number is converted to \<open>unsigned\<close>.
\<close>

definition handler__delete ::
  "(string \<Rightarrow> nat \<Rightarrow> ulong \<times> string) \<Rightarrow> globals_t \<Rightarrow> string list
     \<Rightarrow> bool \<times> globals_t \<times> 'u event list" where
  \<open>handler__delete strtoul vars argv =
     (if length argv \<noteq> 2 then
        (False, vars, [Show_error ''was expecting one argument, see `help delete`.'' []])
      else
        (case strtoul (argv ! 1) 0 of
           (parsed, rest) \<Rightarrow>
             (let id' = (ucast parsed :: 32 word) in
              if argv ! 1 = [] \<or> rest \<noteq> [] then
                (False, vars,
                 [Show_error ''sorry, couldnt parse `%s`, try `help delete`'' [Str (argv ! 1)]])
              else
                (let loc = nth_match (matches vars) id' in
                 case loc_swath loc of
                   Some k \<Rightarrow>
                     (True,
                      vars\<lparr>matches := map_option (\<lambda>sws. clear_match_info sws k (loc_index loc))
                                          (matches vars),
                           num_matches := num_matches vars - 1\<rparr>,
                      [])
                 | None \<Rightarrow>
                     (False, vars,
                      [Show_warn ''you specified a non-existant match `%u`.'' [Num (unat id')],
                       Show_info ''use "list" to list matches, or "help" for other commands.''
                         []])))))\<close>

subsection \<open>delete_by_region and handler__dregion\<close>

text \<open>
  Modelled from the spec: \<open>delete_by_region\<close> (targetmem.c, not among the sources; the
  header declares it with the store, a pointer to the match count, the region and a
  flag). The spec: it sweeps all swaths, zeroing \<open>match_info\<close> of any entry whose remote
  address lies inside the region (\<open>keep_inside\<close> false) or outside it (\<open>keep_inside\<close>
  true). Entry \<open>i\<close> of a swath has the remote address \<open>first_byte_in_child + i\<close>. The count
  is brought back to the number of entries of positive width, the spec's invariant for
  \<open>num_matches\<close>. The handler tests the result for NULL; the model never fails.
\<close>

definition in_region :: "region_t \<Rightarrow> addr \<Rightarrow> bool" where
  "in_region r a \<longleftrightarrow>
     unat (region_start r) \<le> unat a \<and> unat a < unat (region_start r) + unat (region_size r)"

definition sweep_swath :: "region_t \<Rightarrow> bool \<Rightarrow> matches_and_old_values_swath \<Rightarrow> matches_and_old_values_swath" where
  "sweep_swath r keep_inside sw =
     sw\<lparr>data :=
          map (\<lambda>(i, e). if in_region r (first_byte_in_child sw + of_nat i) = keep_inside then e
                         else e\<lparr>match_info := zero_match_flags\<rparr>)
            (enumerate 0 (data sw))\<rparr>"

definition delete_by_region ::
  "matches_and_old_values_swath list \<Rightarrow> region_t \<Rightarrow> bool
     \<Rightarrow> matches_and_old_values_swath list option \<times> 64 word" where
  "delete_by_region sws r keep_inside =
     (let swept = map (sweep_swath r keep_inside) sws
      in (Some swept, of_nat (length (match_locations 0 swept))))"

text \<open>
  \<open>strtok(block, ",")\<close> called until it returns NULL yields the maximal runs of characters
  other than the comma, in order; empty runs are skipped.
\<close>

fun strtok_commas :: "string \<Rightarrow> string \<Rightarrow> string list" where
  "strtok_commas tok [] = (if tok = [] then [] else [rev tok])"
| "strtok_commas tok (c # cs) =
     (if c = CHR '','' then (if tok = [] then strtok_commas [] cs else rev tok # strtok_commas [] cs)
      else strtok_commas (c # tok) cs)"

text \<open>
  The regions list is a linked list of list.c, which is not among the sources. Removing a
  node and walking the list are plain list operations; the calls that allocate are
  parameters, with \<open>None\<close> for the failure the handler tests for: \<open>l_init\<close> gives a new
  empty list, \<open>l_append\<close> a list with one more element, \<open>l_concat\<close> the destination with
  the source moved into it.
\<close>

record list_library =
  l_init :: "region_t list option"
  l_append :: "region_t list \<Rightarrow> region_t \<Rightarrow> region_t list option"
  l_concat :: "region_t list \<Rightarrow> region_t list \<Rightarrow> region_t list option"

fun remove_region :: "32 word \<Rightarrow> region_t list \<Rightarrow> region_t list" where
  "remove_region i [] = []"
| "remove_region i (r # rs) = (if region_id r = i then rs else r # remove_region i rs)"

text \<open>
  Leaving the loop early with an error while the match is inverted: the saved regions go
  back into the regions list. When that fails both lists are destroyed, which leaves the
  session without regions. The source's \<open>assert(keep == NULL)\<close> holds on every path:
  \<open>l_concat\<close> clears \<open>keep\<close>, and without \<open>!\<close> it was never set.
\<close>

definition restore_saved ::
  "list_library \<Rightarrow> bool \<Rightarrow> globals_t \<Rightarrow> region_t list \<Rightarrow> 'u event list
     \<Rightarrow> bool \<times> globals_t \<times> 'u event list" where
  "restore_saved lib invert vars keep evs =
     (if invert then
        (case l_concat lib (regions vars) keep of
           None \<Rightarrow>
             (False, vars\<lparr>regions := []\<rparr>,
              evs @ [Show_error ''there was a problem restoring saved regions.'' []])
         | Some rs \<Rightarrow> (False, vars\<lparr>regions := rs\<rparr>, evs))
      else (False, vars, evs))"

text \<open>
  \<open>delete_by_region(vars->matches, &vars->num_matches, s, invert)\<close> under the test
  \<open>vars->num_matches > 0\<close> on a \<open>long\<close>.
\<close>

definition delete_matches ::
  "globals_t \<Rightarrow> region_t \<Rightarrow> bool \<Rightarrow> 'u event list \<Rightarrow> error + globals_t \<times> 'u event list" where
  "delete_matches vars s keep_inside evs =
     (if 0 <s num_matches vars then
        (case matches vars of
           None \<Rightarrow> Inl Null_dereference
         | Some sws \<Rightarrow>
             (case delete_by_region sws s keep_inside of
                (store', n') \<Rightarrow>
                  Inr (vars\<lparr>matches := store', num_matches := n'\<rparr>,
                       if store' = None
                       then evs @ [Show_error ''memory allocation error while deleting matches'' []]
                       else evs)))
      else Inr (vars, evs))"

text \<open>
  The loop over the ids. It ends early with the handler's result, or hands on the session,
  the list of kept regions and the events so far.
\<close>

fun dregion_loop ::
  "list_library \<Rightarrow> (string \<Rightarrow> nat \<Rightarrow> ulong \<times> string) \<Rightarrow> bool \<Rightarrow> string list \<Rightarrow> globals_t
     \<Rightarrow> region_t list \<Rightarrow> 'u event list
     \<Rightarrow> error + (bool \<times> globals_t \<times> 'u event list) + (globals_t \<times> region_t list \<times> 'u event list)" where
  "dregion_loop lib strtoul invert [] vars keep evs = Inr (Inr (vars, keep, evs))"
| "dregion_loop lib strtoul invert (idstr # idstrs) vars keep evs =
     (case strtoul idstr 0 of
        (parsed, rest) \<Rightarrow>
          (let id' = (ucast parsed :: 32 word) in
           if rest \<noteq> [] \<or> idstr = [] then
             Inr (Inl (restore_saved lib invert vars keep
                         (evs @ [Show_error ''could not parse argument %s.'' [Str idstr]])))
           else
             (case find (\<lambda>r. region_id r = id') (regions vars) of
                None \<Rightarrow>
                  Inr (Inl (restore_saved lib invert vars keep
                              (evs @ [Show_error ''no region matching %u, or already moved.''
                                        [Num (unat id')]])))
              | Some r \<Rightarrow>
                  if invert then
                    (let vars1 = vars\<lparr>regions := remove_region id' (regions vars)\<rparr> in
                     case l_append lib keep r of
                       None \<Rightarrow>
                         Inr (Inl (False, vars1,
                                   evs @ [Show_error ''sorry, there was an internal memory error.''
                                            []]))
                     | Some keep' \<Rightarrow> dregion_loop lib strtoul invert idstrs vars1 keep' evs)
                  else
                    (case delete_matches vars r False evs of
                       Inl e \<Rightarrow> Inl e
                     | Inr (vars1, evs1) \<Rightarrow>
                         dregion_loop lib strtoul invert idstrs
                           (vars1\<lparr>regions := remove_region id' (regions vars1)\<rparr>) keep evs1))))"

definition handler__dregion ::
  "list_library \<Rightarrow> (string \<Rightarrow> nat \<Rightarrow> ulong \<times> string) \<Rightarrow> globals_t \<Rightarrow> string list
     \<Rightarrow> error + bool \<times> globals_t \<times> 'u event list" where
  "handler__dregion lib strtoul vars argv =
     (if length argv < 2 then
        Inr (False, vars, [Show_error ''expected an argument, see `help dregion`.'' []])
      else if target vars = 0 then
        Inr (False, vars, [Show_error ''no target specified, see `help pid`'' []])
      else
        (let invert = (case argv ! 1 of [] \<Rightarrow> False | c # cs \<Rightarrow> c = CHR ''!'');
             block = (if invert then tl (argv ! 1) else argv ! 1)
         in if invert \<and> block = [] then
              Inr (False, vars,
                   [Show_error ''inverting an empty set, maybe try `reset` instead?'' []])
            else
              (case (if invert then l_init lib else Some []) of
                 None \<Rightarrow> Inr (False, vars, [Show_error ''memory allocation error.'' []])
               | Some keep0 \<Rightarrow>
                   (case dregion_loop lib strtoul invert (strtok_commas [] block) vars keep0 [] of
                      Inl e \<Rightarrow> Inl e
                    | Inr (Inl early) \<Rightarrow> Inr early
                    | Inr (Inr (vars1, keep, evs)) \<Rightarrow>
                        if invert then
                          (case keep of
                             [] \<Rightarrow> Inl Null_dereference
                           | s # _ \<Rightarrow>
                               (case delete_matches vars1 s True evs of
                                  Inl e \<Rightarrow> Inl e
                                | Inr (vars2, evs2) \<Rightarrow>
                                    Inr (True, vars2\<lparr>regions := keep\<rparr>, evs2)))
                        else Inr (True, vars1, evs)))))"

text \<open>
  The ids a list of tokens names, and the regions they pick from a regions list, in the
  order of the tokens.
\<close>

definition listed_ids :: "(string \<Rightarrow> nat \<Rightarrow> ulong \<times> string) \<Rightarrow> string list \<Rightarrow> 32 word list" where
  "listed_ids strtoul toks = map (\<lambda>t. ucast (fst (strtoul t 0))) toks"

definition listed_regions :: "region_t list \<Rightarrow> 32 word list \<Rightarrow> region_t list" where
  "listed_regions rs ids = concat (map (\<lambda>i. case find (\<lambda>r. region_id r = i) rs of None \<Rightarrow> [] | Some r \<Rightarrow> [r]) ids)"

subsection \<open>handler__watch\<close>







subsection \<open>handler__dump\<close>

text \<open>
  The part of \<open>handler__dump\<close> that prints to the screen: the branch taken when no file
  name was given, after \<open>sm_read_array\<close> has filled \<open>buf\<close> with the \<open>len\<close> bytes at
  \<open>addr\<close>. \<open>len\<close>, \<open>i\<close>, \<open>j\<close> and \<open>buf_idx\<close> are \<open>int\<close> in the source and integers
  here; as long as \<open>len + 16\<close> stays below \<open>2 ^ 31\<close> no sum in the loops overflows.
  \<open>buf\<close> is the list of the bytes read; the loops read below index \<open>len\<close> only.
\<close>

text \<open>
  \<open>printf("%02X ", (unsigned char) b)\<close>: two upper-case hexadecimal digits and a blank.
\<close>

definition hex_digit :: "nat \<Rightarrow> char" where
  "hex_digit d = ''0123456789ABCDEF'' ! d"

definition print_hex :: "8 word \<Rightarrow> string" where
  "print_hex b = [hex_digit (unat b div 16), hex_digit (unat b mod 16), CHR '' '']"

text \<open>
  \<open>isprint\<close> in the C locale: the printable ASCII characters, blank to tilde.
\<close>

definition isprint :: "8 word \<Rightarrow> bool" where
  "isprint c \<longleftrightarrow> 0x20 \<le> unat c \<and> unat c \<le> 0x7E"

definition print_char :: "8 word \<Rightarrow> char" where
  "print_char c = (if isprint c then char_of (unat c) else CHR ''.'')"

text \<open>
  \<open>printf("%p: ", addr + i)\<close> under the test \<open>vars->options.backend == 0\<close>. How
  \<open>%p\<close> writes a pointer is left to the C library: \<open>fmt_p\<close> is a parameter.
\<close>

definition print_address :: "nat \<Rightarrow> (addr \<Rightarrow> string) \<Rightarrow> addr \<Rightarrow> string" where
  "print_address backend_opt fmt_p a = (if backend_opt = 0 then fmt_p a @ '': '' else [])"

text \<open>
  The first loop, \<open>for (i = 0; i + 16 < len; i += 16)\<close>, prints the rows that are
  followed by more bytes. It returns the output with \<open>i\<close> and \<open>buf_idx\<close> as the loop
  leaves them.
\<close>

function dump_rows ::
  "nat \<Rightarrow> nat \<Rightarrow> (addr \<Rightarrow> string) \<Rightarrow> addr \<Rightarrow> 8 word list \<Rightarrow> int \<Rightarrow> int \<Rightarrow> int
     \<Rightarrow> string \<times> int \<times> int" where
  "dump_rows backend_opt ascii_opt fmt_p addr buf len i buf_idx =
     (if i + 16 < len then
        (case dump_rows backend_opt ascii_opt fmt_p addr buf len (i + 16) (buf_idx + 16) of
           (out, i', buf_idx') \<Rightarrow>
             (print_address backend_opt fmt_p (addr + of_int i)
              @ concat (map (\<lambda>j. print_hex (buf ! nat (buf_idx + int j))) [0..<16])
              @ (if ascii_opt \<noteq> 0 then map (\<lambda>j. print_char (buf ! nat (i + int j))) [0..<16]
                 else [])
              @ [CHR 0x0A] @ out, i', buf_idx'))
      else ([], i, buf_idx))"
  by pat_completeness auto
termination
  by (relation "measure (\<lambda>(backend_opt, ascii_opt, fmt_p, addr, buf, len, i, buf_idx). nat (len - i))")
    auto

text \<open>
  \<open>while (j % 16 != 0) { printf("   "); ++j; }\<close>, which in the last row fills the place
  of the bytes that are not there.
\<close>

function skip_empty :: "int \<Rightarrow> string" where
  "skip_empty j = (if j mod 16 \<noteq> 0 then ''   '' @ skip_empty (j + 1) else [])"
  by pat_completeness auto
termination
proof (relation "measure (\<lambda>j. nat ((16 - j mod 16) mod 16))")
  show "wf (measure (\<lambda>j. nat ((16 - j mod 16) mod 16)))" by simp
next
  fix j :: int
  assume "j mod 16 \<noteq> 0"
  define r where "r = j mod 16"
  have r: "0 < r" "r < 16" using \<open>j mod 16 \<noteq> 0\<close> by (simp_all add: r_def le_less)
  have s: "(j + 1) mod 16 = (r + 1) mod 16" by (simp add: r_def mod_add_left_eq)
  have b: "(16 - r) mod 16 = 16 - r"
    by (rule mod_pos_pos_trivial) (use r in linarith)+
  have "(16 - j mod 16) mod 16 = 1 + (16 - (j + 1) mod 16) mod 16"
  proof (cases "r = 15")
    case True
    then show ?thesis unfolding s r_def [symmetric] by simp
  next
    case False
    with r have lt: "r + 1 < 16" by simp
    have a: "(r + 1) mod 16 = r + 1"
      by (rule mod_pos_pos_trivial) (use r lt in linarith)+
    have c: "(16 - (r + 1)) mod 16 = 16 - (r + 1)"
      by (rule mod_pos_pos_trivial) (use r lt in linarith)+
    show ?thesis unfolding s r_def [symmetric] a c b by linarith
  qed
  moreover have "0 \<le> (16 - (j + 1) mod 16) mod 16" by simp
  ultimately show "(j + 1, j) \<in> measure (\<lambda>j. nat ((16 - j mod 16) mod 16))" by simp
qed

text \<open>The block under \<open>if (i < len)\<close>: the last row, of 1 to 16 bytes.\<close>

definition dump_last_row ::
  "nat \<Rightarrow> nat \<Rightarrow> (addr \<Rightarrow> string) \<Rightarrow> addr \<Rightarrow> 8 word list \<Rightarrow> int \<Rightarrow> int \<Rightarrow> int \<Rightarrow> string" where
  "dump_last_row backend_opt ascii_opt fmt_p addr buf len i buf_idx =
     (if i < len then
        print_address backend_opt fmt_p (addr + of_int i)
        @ concat (map (\<lambda>j. print_hex (buf ! nat (buf_idx + int j))) [0..<nat (len - i)])
        @ (if ascii_opt \<noteq> 0 then
             skip_empty len @ map (\<lambda>j. print_char (buf ! nat (i + int j))) [0..<nat (len - i)]
           else [])
        @ [CHR 0x0A]
      else [])"

definition handler__dump_screen ::
  "globals_t \<Rightarrow> (addr \<Rightarrow> string) \<Rightarrow> addr \<Rightarrow> 8 word list \<Rightarrow> int \<Rightarrow> string" where
  "handler__dump_screen vars fmt_p addr buf len =
     (case dump_rows (backend (options vars)) (dump_with_ascii (options vars)) fmt_p addr buf len 0 0 of
        (out, i, buf_idx) \<Rightarrow>
          out @ dump_last_row (backend (options vars)) (dump_with_ascii (options vars)) fmt_p addr
                  buf len i buf_idx)"

text \<open>
  Modelled from the spec: the dump format. The bytes come in rows of 16; on each row the
  address first when asked for, then every byte in two-digit hex, then when asked for
  the panel of printable ASCII, set off so that the panels of all rows line up.
\<close>

function rows_of_16 :: "'a list \<Rightarrow> 'a list list" where
  "rows_of_16 xs = (if xs = [] then [] else take 16 xs # rows_of_16 (drop 16 xs))"
  by pat_completeness auto
termination
  by (relation "measure length") auto

declare dump_rows.simps [simp del] skip_empty.simps [simp del] rows_of_16.simps [simp del]

text \<open>
  Modelled from the spec: a byte in two-digit hex is its high and its low hexadecimal
  digit, the digits from ten on as the letters A to F; \<open>hex_value\<close> is the number that
  a string of hexadecimal digits writes. The printable ASCII characters are those from
  the blank to the tilde; the panel has a printable byte as its character and any other
  byte as a dot.
\<close>

definition hex_char :: "nat \<Rightarrow> char" where
  "hex_char d =
     (if d < 10 then char_of (of_char CHR ''0'' + d) else char_of (of_char CHR ''A'' + (d - 10)))"

definition two_digit_hex :: "8 word \<Rightarrow> string" where
  "two_digit_hex b = [hex_char (unat b div 16), hex_char (unat b mod 16)]"

definition hex_digit_value :: "char \<Rightarrow> nat option" where
  "hex_digit_value = map_of (zip ''0123456789ABCDEFabcdef'' ([0..<16] @ [10..<16]))"

definition hex_value :: "string \<Rightarrow> nat option" where
  "hex_value str =
     fold (\<lambda>c acc. case (acc, hex_digit_value c) of
                      (Some a, Some d) \<Rightarrow> Some (16 * a + d)
                    | _ \<Rightarrow> None)
       str (Some 0)"

definition printable_ascii :: "char \<Rightarrow> bool" where
  "printable_ascii c \<longleftrightarrow>
     (of_char CHR '' '' :: nat) \<le> of_char c \<and> (of_char c :: nat) \<le> of_char CHR ''~''"

definition panel_char :: "8 word \<Rightarrow> char" where
  "panel_char b = (if printable_ascii (char_of (unat b)) then char_of (unat b) else CHR ''.'')"

definition dump_row :: "bool \<Rightarrow> bool \<Rightarrow> (addr \<Rightarrow> string) \<Rightarrow> addr \<Rightarrow> nat \<times> 8 word list \<Rightarrow> string" where
  "dump_row with_address with_ascii fmt_p addr row =
     (case row of
        (k, bytes) \<Rightarrow>
          (if with_address then fmt_p (addr + 16 * of_nat k) @ '': '' else [])
          @ concat (map (\<lambda>b. two_digit_hex b @ '' '') bytes)
          @ (if with_ascii
             then replicate (3 * (16 - length bytes)) CHR '' '' @ map panel_char bytes
             else [])
          @ [CHR 0x0A])"

definition dump_format :: "bool \<Rightarrow> bool \<Rightarrow> (addr \<Rightarrow> string) \<Rightarrow> addr \<Rightarrow> 8 word list \<Rightarrow> string" where
  "dump_format with_address with_ascii fmt_p addr buf =
     concat (map (dump_row with_address with_ascii fmt_p addr) (enumerate 0 (rows_of_16 buf)))"

subsection \<open>Example sessions\<close>

text \<open>
  A session before its first scan, and a session with three regions and a store of three
  swaths, one in each region: two matches in region 1 (with a padding entry between
  them), one in region 2 and one in region 3.
\<close>

definition fresh_session :: globals_t where
  "fresh_session =
     \<lparr>matches = None, num_matches = 0, regions = [], target = 1234,
      options = \<lparr>backend = 0, dump_with_ascii = 1, scan_data_type = ANYNUMBER\<rparr>\<rparr>"

definition region1 :: region_t where
  "region1 = \<lparr>region_id = 1, region_start = 0x400000, region_size = 0x1000\<rparr>"

definition region2 :: region_t where
  "region2 = \<lparr>region_id = 2, region_start = 0x600000, region_size = 0x1000\<rparr>"

definition region3 :: region_t where
  "region3 = \<lparr>region_id = 3, region_start = 0x7f0000, region_size = 0x1000\<rparr>"

definition byte_match :: "8 word \<Rightarrow> old_value_and_match_info" where
  "byte_match v = \<lparr>old_value = v, match_info = zero_match_flags\<lparr>u8b := True, s8b := True\<rparr>\<rparr>"

definition narrowing_session :: globals_t where
  "narrowing_session =
     \<lparr>matches = Some
        [\<lparr>first_byte_in_child = 0x400010, data = [byte_match 100, zero_entry, byte_match 100]\<rparr>,
         \<lparr>first_byte_in_child = 0x600020, data = [byte_match 100]\<rparr>,
         \<lparr>first_byte_in_child = 0x7f0040, data = [byte_match 100]\<rparr>],
      num_matches = 4, regions = [region1, region2, region3], target = 1234,
      options = \<lparr>backend = 0, dump_with_ascii = 1, scan_data_type = ANYNUMBER\<rparr>\<rparr>"

text \<open>A \<open>strtoul\<close> that reads one decimal digit, and a list library that never fails.\<close>

definition strtoul_digit :: "string \<Rightarrow> nat \<Rightarrow> ulong \<times> string" where
  "strtoul_digit str base =
     (case str of
        [] \<Rightarrow> (0, [])
      | c # cs \<Rightarrow>
          if 48 \<le> (of_char c :: nat) \<and> (of_char c :: nat) \<le> 57
          then (of_nat (of_char c - 48), cs) else (0, str))"

definition list_library_ok :: list_library where
  "list_library_ok =
     \<lparr>l_init = Some [], l_append = (\<lambda>l x. Some (l @ [x])), l_concat = (\<lambda>dst src. Some (dst @ src))\<rparr>"


section \<open>Properties of the store\<close>

subsection \<open>The doubling loop ends\<close>

text \<open>
  From a non-zero size and for a request of at most \<open>2 ^ 63\<close> bytes no product wraps,
  and the loop stops at the first doubling that fits.
\<close>

lemma double_until_returns:
  "0 < b \<Longrightarrow> needed \<le> 2 ^ 63 \<Longrightarrow>
   \<exists>k. double_until b needed = Some (b * 2 ^ k) \<and> unat (b * 2 ^ k) = unat b * 2 ^ k
       \<and> needed \<le> b * 2 ^ k \<and> (\<forall>j<k. b * 2 ^ j < needed)"
proof (induction "unat needed - unat b" arbitrary: b rule: less_induct)
  case less
  show ?case
  proof (cases "b < needed")
    case False
    then have "double_until b needed = Some b"
      by (subst double_until.simps) simp
    with False show ?thesis
      by (intro exI [of _ 0]) simp
  next
    case True
    have nb: "unat b < unat needed" using True by (simp add: word_less_nat_alt)
    have nn: "unat needed \<le> 2 ^ 63" using less.prems(2) by (simp add: word_le_nat_alt)
    have b0: "0 < unat b" using less.prems(1) by (simp add: word_less_nat_alt)
    have u2: "unat (b * 2) = unat b * 2"
      using nb nn by (simp add: unat_word_ariths)
    have pos: "0 < b * 2" using u2 b0 by (simp add: word_less_nat_alt)
    have dec: "unat needed - unat (b * 2) < unat needed - unat b"
      using u2 b0 nb by simp
    from less.hyps [OF dec pos less.prems(2)]
    obtain k where k: "double_until (b * 2) needed = Some (b * 2 * 2 ^ k)"
      "unat (b * 2 * 2 ^ k) = unat (b * 2) * 2 ^ k"
      "needed \<le> b * 2 * 2 ^ k" "\<forall>j<k. b * 2 * 2 ^ j < needed" by blast
    have "double_until b needed = Some (b * 2 ^ Suc k)"
      using True k(1) by (subst double_until.simps) (simp add: mult.assoc)
    moreover have "unat (b * 2 ^ Suc k) = unat b * 2 ^ Suc k"
      using k(2) u2 by (simp add: mult.assoc)
    moreover have "needed \<le> b * 2 ^ Suc k" using k(3) by (simp add: mult.assoc)
    moreover have "\<forall>j<Suc k. b * 2 ^ j < needed"
    proof (intro allI impI)
      fix j assume "j < Suc k"
      show "b * 2 ^ j < needed"
      proof (cases j)
        case 0 then show ?thesis using True by simp
      next
        case (Suc i)
        then have "i < k" using \<open>j < Suc k\<close> by simp
        then show ?thesis using k(4) Suc by (simp add: mult.assoc)
      qed
    qed
    ultimately show ?thesis by blast
  qed
qed

subsection \<open>Cells and addresses\<close>

text \<open>
  Reading back what was written; the addresses of a swath's entries are distinct from
  one another and from the swath's header as long as the swath does not wrap around the
  address space; growing the store keeps every cell of the old block readable at the
  moved address.
\<close>

lemma location_write_cell [simp]: "location (write_cell arr p c) = location arr"
  by (simp add: write_cell_def)

lemma cell_at_write_cell [simp]:
  "cell_at (write_cell arr p c) q = (if q = p then Some c else cell_at arr q)"
  by (simp add: write_cell_def cell_at_def)

lemma cell_at_fold_write:
  "cell_at (fold (\<lambda>i a. write_cell a (dst + of_nat i * esz) c) [0..<m] arr) q =
     (if \<exists>i<m. q = dst + of_nat i * esz then Some c else cell_at arr q)"
proof (induction m)
  case 0
  then show ?case by simp
next
  case (Suc m)
  then show ?case by (auto simp: less_Suc_eq)
qed

lemma cell_at_memset_zero:
  "cell_at (memset_zero esz arr dst nbytes) q =
     (if \<exists>i<unat nbytes div unat esz. q = dst + of_nat i * esz then Some (Entry zero_entry)
      else cell_at arr q)"
  unfolding memset_zero_def by (rule cell_at_fold_write)

lemma unat_data_offset:
  fixes k esz :: ulong
  assumes "16 + unat k * unat esz < 2 ^ 64"
  shows "unat (16 + k * esz) = 16 + unat k * unat esz"
proof -
  have m: "unat (k * esz) = unat k * unat esz"
    using assms by (simp add: unat_mult_lem [THEN iffD1])
  have "unat (16 :: ulong) + unat (k * esz) < 2 ^ LENGTH(64)"
    using assms m by simp
  then have "unat (16 + k * esz) = unat (16 :: ulong) + unat (k * esz)"
    by (simp only: unat_add_lem [THEN iffD1])
  with m show ?thesis by simp
qed

lemma data_addr_eq_iff:
  assumes "esz \<noteq> 0" "16 + unat j * unat esz < 2 ^ 64" "16 + unat k * unat esz < 2 ^ 64"
  shows "data_addr esz swath j = data_addr esz swath k \<longleftrightarrow> j = k"
proof
  assume "data_addr esz swath j = data_addr esz swath k"
  then have "16 + j * esz = 16 + k * esz"
    by (simp add: data_addr_def sizeof_swath_def add.assoc)
  then have "unat (16 + j * esz) = unat (16 + k * esz)" by (rule arg_cong)
  then have "unat j * unat esz = unat k * unat esz"
    using assms(2,3) by (simp add: unat_data_offset)
  moreover have "0 < unat esz" using assms(1) by (simp add: unat_gt_0)
  ultimately have "unat j = unat k" by simp
  then show "j = k" by (simp add: word_unat_eq_iff)
qed simp

lemma data_addr_not_header:
  assumes "16 + unat k * unat esz < 2 ^ 64"
  shows "data_addr esz swath k \<noteq> swath + 8" and "data_addr esz swath k \<noteq> swath"
proof -
  have u: "unat (16 + k * esz) = 16 + unat k * unat esz"
    using assms by (rule unat_data_offset)
  have "16 + k * esz \<noteq> 8"
  proof
    assume "16 + k * esz = 8"
    then have "unat (16 + k * esz) = unat (8 :: ulong)" by (rule arg_cong)
    with u show False by simp
  qed
  then show "data_addr esz swath k \<noteq> swath + 8"
    by (simp add: data_addr_def sizeof_swath_def add.assoc)
  have "16 + k * esz \<noteq> 0"
  proof
    assume "16 + k * esz = 0"
    then have "unat (16 + k * esz) = unat (0 :: ulong)" by (rule arg_cong)
    with u show False by simp
  qed
  then show "data_addr esz swath k \<noteq> swath"
    by (simp add: data_addr_def sizeof_swath_def add.assoc)
qed

lemma grow_to_cell_at:
  assumes "grow_to realloc arr reach swath = Inr (arr1, swath1)"
    and "p - location arr < bytes_allocated arr"
  shows "cell_at arr1 (p + (swath1 - swath)) = cell_at arr p"
proof -
  from assms(1) obtain g where g: "allocate_enough_to_reach realloc arr reach (Some swath) = Inr g"
    "returned g \<noteq> 0" "arr1 = block g" "swath_ptr g = Some swath1"
    by (auto simp: grow_to_def split: sum.splits if_splits option.splits)
  show ?thesis
  proof (cases "reach - location arr \<le> bytes_allocated arr")
    case True
    with g show ?thesis by (auto simp: allocate_enough_to_reach_def)
  next
    case False
    with g obtain sz where "block g = \<lparr>location = returned g, bytes_allocated = sz,
                 max_needed_bytes = max_needed_bytes arr,
                 cells = (\<lambda>off. if off < bytes_allocated arr then cells arr off else None)\<rparr>"
      "swath1 = swath + (returned g - location arr)"
      by (auto simp: allocate_enough_to_reach_def Let_def split: if_splits option.splits)
    moreover have "p + (swath + (returned g - location arr) - swath) - returned g = p - location arr"
      by simp
    ultimately show ?thesis using assms(2) g(3)
      by (simp add: cell_at_def)
  qed
qed

lemma grow_to_header:
  assumes "grow_to realloc arr reach swath = Inr (arr1, swath1)"
    and "swath - location arr < bytes_allocated arr"
    and "swath + 8 - location arr < bytes_allocated arr"
  shows "swath_first_byte_in_child arr1 swath1 = swath_first_byte_in_child arr swath"
    and "swath_number_of_bytes arr1 swath1 = swath_number_of_bytes arr swath"
proof -
  have "cell_at arr1 (swath + (swath1 - swath)) = cell_at arr swath"
    using assms(1,2) by (rule grow_to_cell_at)
  then show "swath_first_byte_in_child arr1 swath1 = swath_first_byte_in_child arr swath"
    by (simp add: swath_first_byte_in_child_def)
  have "cell_at arr1 (swath + 8 + (swath1 - swath)) = cell_at arr (swath + 8)"
    using assms(1,3) by (rule grow_to_cell_at)
  moreover have "swath + 8 + (swath1 - swath) = swath1 + 8" by simp
  ultimately show "swath_number_of_bytes arr1 swath1 = swath_number_of_bytes arr swath"
    by (simp add: swath_number_of_bytes_def)
qed

subsection \<open>allocate_enough_to_reach\<close>

text \<open>
  Claim C10. When the bytes needed to reach the requested address are at most
  \<open>bytes_allocated\<close>, the routine returns the store pointer it was given, calls
  \<open>realloc\<close> not at all, and leaves the block (its \<open>bytes_allocated\<close>, its
  \<open>max_needed_bytes\<close> and every cell) and the caller's cursor as they were.
\<close>

theorem allocate_enough_to_reach_fits:
  "last_byte - location arr \<le> bytes_allocated arr \<Longrightarrow>
   allocate_enough_to_reach realloc arr last_byte cursor =
     Inr \<lparr>returned = location arr, block = arr, swath_ptr = cursor, realloc_calls = []\<rparr>"
  by (simp add: allocate_enough_to_reach_def)

theorem allocate_enough_to_reach_fits_witness:
  "allocate_enough_to_reach (\<lambda>p n. 0) example_array 0x1020 (Some 0x1010) =
     Inr \<lparr>returned = 0x1000, block = example_array, swath_ptr = Some 0x1010, realloc_calls = []\<rparr>"
  using allocate_enough_to_reach_fits [where last_byte = "0x1020" and arr = example_array and realloc = "\<lambda>p n. 0" and cursor = "Some 0x1010"]
  by (simp add: example_array_def)

text \<open>
  Claim C2. When the request exceeds \<open>bytes_allocated\<close>, the size asked of
  \<open>realloc\<close> is \<open>bytes_allocated\<close> doubled \<open>k\<close> times, \<open>k\<close> the first number of
  doublings that fits the request, and \<open>max_needed_bytes\<close> instead whenever that
  is smaller. A failing \<open>realloc\<close> makes the routine return NULL with the old block
  untouched; a succeeding one yields the block at its new address with the new size.
  The routine asserts that \<open>max_needed_bytes\<close> covers the request when it clamps. The
  two side conditions keep the doubling inside 64 bits: a store always holds its
  terminator, so \<open>bytes_allocated\<close> is not 0, and no request exceeds \<open>2 ^ 63\<close> bytes.
\<close>

theorem allocate_enough_to_reach_grows:
  assumes "bytes_allocated arr < last_byte - location arr"
    and "0 < bytes_allocated arr"
    and "last_byte - location arr \<le> 2 ^ 63"
  shows "\<exists>k. unat (bytes_allocated arr * 2 ^ k) = unat (bytes_allocated arr) * 2 ^ k
           \<and> last_byte - location arr \<le> bytes_allocated arr * 2 ^ k
           \<and> (\<forall>j<k. bytes_allocated arr * 2 ^ j < last_byte - location arr)
           \<and> allocate_enough_to_reach realloc arr last_byte cursor =
               (if max_needed_bytes arr < bytes_allocated arr * 2 ^ k
                   \<and> max_needed_bytes arr < last_byte - location arr
                then Inl Assert_failed
                else if realloc (location arr)
                          (min (bytes_allocated arr * 2 ^ k) (max_needed_bytes arr)) = 0
                then Inr \<lparr>returned = 0, block = arr, swath_ptr = cursor,
                          realloc_calls =
                            [(location arr,
                              min (bytes_allocated arr * 2 ^ k) (max_needed_bytes arr))]\<rparr>
                else Inr \<lparr>returned =
                            realloc (location arr)
                              (min (bytes_allocated arr * 2 ^ k) (max_needed_bytes arr)),
                          block =
                            \<lparr>location =
                               realloc (location arr)
                                 (min (bytes_allocated arr * 2 ^ k) (max_needed_bytes arr)),
                             bytes_allocated =
                               min (bytes_allocated arr * 2 ^ k) (max_needed_bytes arr),
                             max_needed_bytes = max_needed_bytes arr,
                             cells = (\<lambda>off. if off < bytes_allocated arr
                                             then cells arr off else None)\<rparr>,
                          swath_ptr =
                            map_option
                              (\<lambda>swath. swath +
                                 (realloc (location arr)
                                    (min (bytes_allocated arr * 2 ^ k) (max_needed_bytes arr))
                                  - location arr))
                              cursor,
                          realloc_calls =
                            [(location arr,
                              min (bytes_allocated arr * 2 ^ k) (max_needed_bytes arr))]\<rparr>)"
proof -
  from double_until_returns [OF assms(2,3)]
  obtain k where k: "double_until (bytes_allocated arr) (last_byte - location arr)
                       = Some (bytes_allocated arr * 2 ^ k)"
    "unat (bytes_allocated arr * 2 ^ k) = unat (bytes_allocated arr) * 2 ^ k"
    "last_byte - location arr \<le> bytes_allocated arr * 2 ^ k"
    "\<forall>j<k. bytes_allocated arr * 2 ^ j < last_byte - location arr"
    by blast
  have m: "min (bytes_allocated arr * 2 ^ k) (max_needed_bytes arr) =
        (if max_needed_bytes arr < bytes_allocated arr * 2 ^ k then max_needed_bytes arr
         else bytes_allocated arr * 2 ^ k)"
    by (auto simp: min_def)
  have "allocate_enough_to_reach realloc arr last_byte cursor = 
               (if max_needed_bytes arr < bytes_allocated arr * 2 ^ k
                   \<and> max_needed_bytes arr < last_byte - location arr
                then Inl Assert_failed
                else if realloc (location arr)
                          (min (bytes_allocated arr * 2 ^ k) (max_needed_bytes arr)) = 0
                then Inr \<lparr>returned = 0, block = arr, swath_ptr = cursor,
                          realloc_calls =
                            [(location arr,
                              min (bytes_allocated arr * 2 ^ k) (max_needed_bytes arr))]\<rparr>
                else Inr \<lparr>returned =
                            realloc (location arr)
                              (min (bytes_allocated arr * 2 ^ k) (max_needed_bytes arr)),
                          block =
                            \<lparr>location =
                               realloc (location arr)
                                 (min (bytes_allocated arr * 2 ^ k) (max_needed_bytes arr)),
                             bytes_allocated =
                               min (bytes_allocated arr * 2 ^ k) (max_needed_bytes arr),
                             max_needed_bytes = max_needed_bytes arr,
                             cells = (\<lambda>off. if off < bytes_allocated arr
                                             then cells arr off else None)\<rparr>,
                          swath_ptr =
                            map_option
                              (\<lambda>swath. swath +
                                 (realloc (location arr)
                                    (min (bytes_allocated arr * 2 ^ k) (max_needed_bytes arr))
                                  - location arr))
                              cursor,
                          realloc_calls =
                            [(location arr,
                              min (bytes_allocated arr * 2 ^ k) (max_needed_bytes arr))]\<rparr>)"
    using assms(1) k(1) unfolding m
    by (simp add: allocate_enough_to_reach_def Let_def not_le)
  with k(2,3,4) show ?thesis by blast
qed

theorem allocate_enough_to_reach_grows_witness:
  "allocate_enough_to_reach (\<lambda>p n. 0x8000) example_array 0x1064 (Some 0x1010) =
     Inr \<lparr>returned = 0x8000,
          block = \<lparr>location = 0x8000, bytes_allocated = 128, max_needed_bytes = 4096,
                   cells = (\<lambda>off. if off < 32 then cells example_array off else None)\<rparr>,
          swath_ptr = Some 0x8010, realloc_calls = [(0x1000, 128)]\<rparr>"
  using allocate_enough_to_reach_grows [where arr = example_array and last_byte = "0x1064" and realloc = "\<lambda>p n. 0x8000" and cursor = "Some 0x1010"]
  unfolding example_array_def
  by (simp add: allocate_enough_to_reach_def double_until.simps)

text \<open>
  Claim C3. When the routine returns a block at another address and the caller passed a
  cursor, the cursor comes back moved by the difference of the two addresses: it has the
  offset into the new block that it had into the old one, and every cell of the old
  block is read through the moved cursor as it was read through the old one.
\<close>

theorem allocate_enough_to_reach_moves_cursor:
  assumes "allocate_enough_to_reach realloc arr last_byte (Some swath) = Inr g"
    and "returned g \<noteq> 0"
    and "returned g \<noteq> location arr"
  shows "location (block g) = returned g
       \<and> swath_ptr g = Some (swath + (returned g - location arr))
       \<and> swath + (returned g - location arr) - location (block g) = swath - location arr
       \<and> (\<forall>d. swath + d - location arr < bytes_allocated arr \<longrightarrow>
              cell_at (block g) (swath + (returned g - location arr) + d) = cell_at arr (swath + d))"
proof -
  from assms obtain sz where g: "returned g = realloc (location arr) sz"
    "block g = \<lparr>location = returned g, bytes_allocated = sz,
                 max_needed_bytes = max_needed_bytes arr,
                 cells = (\<lambda>off. if off < bytes_allocated arr then cells arr off else None)\<rparr>"
    "swath_ptr g = Some (swath + (returned g - location arr))"
    by (auto simp: allocate_enough_to_reach_def Let_def split: if_splits option.splits)
  have "swath + (returned g - location arr) + d - returned g = swath + d - location arr" for d
    by simp
  then show ?thesis using g(2,3)
    by (simp add: cell_at_def add_diff_eq)
qed

theorem allocate_enough_to_reach_moves_cursor_witness:
  "allocate_enough_to_reach (\<lambda>p n. 0x8000) example_array 0x1064 (Some 0x1010) =
     Inr \<lparr>returned = 0x8000,
          block = \<lparr>location = 0x8000, bytes_allocated = 128, max_needed_bytes = 4096,
                   cells = (\<lambda>off. if off < 32 then cells example_array off else None)\<rparr>,
          swath_ptr = Some 0x8010, realloc_calls = [(0x1000, 128)]\<rparr>
   \<and> cell_at \<lparr>location = 0x8000, bytes_allocated = 128, max_needed_bytes = 4096,
                cells = (\<lambda>off. if off < 32 then cells example_array off else None)\<rparr>
         (0x8010 + 8) = cell_at example_array (0x1010 + 8)
   \<and> cell_at example_array (0x1010 + 8) = Some (ULong 0)"
proof -
  let ?g = "\<lparr>returned = 0x8000,
          block = \<lparr>location = 0x8000, bytes_allocated = 128, max_needed_bytes = 4096,
                   cells = (\<lambda>off. if off < 32 then cells example_array off else None)\<rparr>,
          swath_ptr = Some 0x8010, realloc_calls = [(0x1000, 128)]\<rparr>"
  have run: "allocate_enough_to_reach (\<lambda>p n. 0x8000) example_array 0x1064 (Some 0x1010) = Inr ?g"
    unfolding example_array_def
    by (simp add: allocate_enough_to_reach_def double_until.simps)
  have "returned ?g \<noteq> 0" "returned ?g \<noteq> location example_array"
    by (simp_all add: example_array_def)
  from allocate_enough_to_reach_moves_cursor [OF run this] run
  show ?thesis
    by (simp add: example_array_def cell_at_def)
qed

subsection \<open>add_element\<close>

lemma add_me_result:
  assumes "swath_number_of_bytes arr swath = Some m"
    and "16 + unat m * unat esz < 2 ^ 64"
  shows "add_me esz arr swath e =
           Inr (write_cell (write_cell arr (data_addr esz swath m) (Entry e)) (swath + 8)
                  (ULong (m + 1)), swath)"
proof -
  have b: "local_address_beyond_last_element esz arr swath = Some (data_addr esz swath m)"
    using assms(1)
    by (simp add: local_address_beyond_last_element_def index_of_last_element_def
          local_address_beyond_nth_element_def)
  have "swath + 8 \<noteq> data_addr esz swath m"
    using data_addr_not_header(1) [OF assms(2)] by metis
  then have "swath_number_of_bytes (write_cell arr (data_addr esz swath m) (Entry e)) swath = Some m"
    using assms(1) by (simp add: swath_number_of_bytes_def)
  with b show ?thesis
    by (simp add: add_me_def of_read_def)
qed

lemma unat_excess_bytes:
  fixes excess esz :: ulong
  assumes "esz \<noteq> 0" "16 + (unat n + unat excess) * unat esz < 2 ^ 64"
  shows "unat (excess * esz) = unat excess * unat esz"
    and "unat (excess * esz) div unat esz = unat excess"
proof -
  have "unat excess * unat esz < 2 ^ LENGTH(64)"
    using assms(2) by (simp add: add_mult_distrib)
  then show m: "unat (excess * esz) = unat excess * unat esz"
    by (simp only: unat_mult_lem [THEN iffD1])
  have "0 < unat esz" using assms(1) by (simp add: unat_gt_0)
  with m show "unat (excess * esz) div unat esz = unat excess" by simp
qed

lemma unat_index_in_padding:
  fixes n excess esz :: ulong
  assumes "esz \<noteq> 0" "16 + (unat n + unat excess) * unat esz < 2 ^ 64" "i < unat excess"
  shows "unat (n + of_nat i) = unat n + i"
    and "16 + unat (n + of_nat i) * unat esz < 2 ^ 64"
proof -
  have e: "0 < unat esz" using assms(1) by (simp add: unat_gt_0)
  have "unat n + unat excess \<le> (unat n + unat excess) * unat esz"
    using e by (cases "unat esz") simp_all
  then have lt: "unat n + unat excess < 2 ^ 64" using assms(2) by linarith
  have i64: "i < 2 ^ 64" using assms(3) lt by simp
  then have ui: "unat (of_nat i :: ulong) = i"
    by (simp add: unat_of_nat)
  have "unat n + unat (of_nat i :: ulong) < 2 ^ LENGTH(64)"
    using ui lt assms(3) by simp
  then have "unat (n + of_nat i) = unat n + unat (of_nat i :: ulong)"
    by (simp only: unat_add_lem [THEN iffD1])
  with ui show u: "unat (n + of_nat i) = unat n + i" by simp
  have "(unat n + i) * unat esz \<le> (unat n + unat excess) * unat esz"
    using assms(3) by (intro mult_le_mono1) simp
  then have "16 + (unat n + i) * unat esz < 2 ^ 64"
    using assms(2) by linarith
  then show "16 + unat (n + of_nat i) * unat esz < 2 ^ 64"
    by (simp only: u)
qed

lemma one_swath_header:
  "swath_first_byte_in_child one_swath_array 0x1010 = Some 0x400000"
  "swath_number_of_bytes one_swath_array 0x1010 = Some 1"
  by (simp_all add: one_swath_array_def swath_first_byte_in_child_def
        swath_number_of_bytes_def cell_at_def)

lemma one_swath_grow:
  "reach - 0x1000 \<le> 4096 \<Longrightarrow>
   grow_to realloc one_swath_array reach 0x1010 = Inr (one_swath_array, 0x1010)"
  by (simp add: grow_to_def allocate_enough_to_reach_def one_swath_array_def)

text \<open>
  Claim C1, as the sources have it. Take a non-empty swath and a remote address beyond
  its last covered address, and let \<open>excess\<close> be the distance from that last covered
  address \<open>first_byte_in_child + number_of_bytes - 1\<close> to \<open>remote_addr\<close> (the source's
  \<open>local_idx_excess\<close>; one more than the number of addresses skipped). With
  \<open>threshold = sizeof(swath header) + sizeof(entry)\<close>:
  \<^item> if \<open>excess * sizeof(entry) \<ge> threshold\<close>, a new swath is started right behind the
    last entry: its \<open>first_byte_in_child\<close> is \<open>remote_addr\<close>, it has one byte, and its
    entry 0 is the new element;
  \<^item> otherwise the current swath keeps its entries, gets \<open>excess - 1\<close> zero entries and
    then the new element, and \<open>number_of_bytes\<close> grows by \<open>excess\<close>.
  Equality with the threshold starts a new swath. The side conditions: the swath with
  its new entries does not wrap around the address space, its header lies inside the
  allocated block, and the store could be grown to the size the branch asks for.
\<close>

theorem add_element_nonempty:
  fixes esz first n remote_addr :: ulong
  defines "excess \<equiv> remote_addr - (first + (n - 1))"
  assumes first: "swath_first_byte_in_child arr swath = Some first"
    and n: "swath_number_of_bytes arr swath = Some n"
    and nonempty: "n \<noteq> 0"
    and beyond: "first + (n - 1) < remote_addr"
    and esz: "esz \<noteq> 0"
    and nowrap: "16 + (unat n + unat excess) * unat esz < 2 ^ 64"
    and inside: "swath - location arr < bytes_allocated arr"
      "swath + 8 - location arr < bytes_allocated arr"
    and grows: "grow_to realloc arr
                  (data_addr esz swath n +
                     (if sizeof_swath + esz \<le> excess * esz then sizeof_swath + esz
                      else excess * esz)) swath = Inr (arr1, swath1)"
  shows "if sizeof_swath + esz \<le> excess * esz then
           (\<exists>arr'. add_element esz realloc arr swath remote_addr new_elem
                      = Inr (arr', data_addr esz swath1 n)
                \<and> swath_first_byte_in_child arr' (data_addr esz swath1 n) = Some remote_addr
                \<and> swath_number_of_bytes arr' (data_addr esz swath1 n) = Some 1
                \<and> swath_data esz arr' (data_addr esz swath1 n) 0 = Some new_elem)
         else
           (\<exists>arr'. add_element esz realloc arr swath remote_addr new_elem = Inr (arr', swath1)
                \<and> swath_first_byte_in_child arr' swath1 = Some first
                \<and> swath_number_of_bytes arr' swath1 = Some (n + excess)
                \<and> (\<forall>i. i < n \<and> data_addr esz swath i - location arr < bytes_allocated arr \<longrightarrow>
                       swath_data esz arr' swath1 i = swath_data esz arr swath i)
                \<and> (\<forall>i. i < excess - 1 \<longrightarrow> swath_data esz arr' swath1 (n + i) = Some zero_entry)
                \<and> swath_data esz arr' swath1 (n + excess - 1) = Some new_elem)"
proof -
  have last: "remote_address_of_last_element arr swath = Some (first + (n - 1))"
    using first n
    by (simp add: remote_address_of_last_element_def index_of_last_element_def
          remote_address_of_nth_element_def)
  have bl: "local_address_beyond_last_element esz arr swath = Some (data_addr esz swath n)"
    using n
    by (simp add: local_address_beyond_last_element_def index_of_last_element_def
          local_address_beyond_nth_element_def)
  have hdr1: "swath_first_byte_in_child arr1 swath1 = Some first"
    "swath_number_of_bytes arr1 swath1 = Some n"
    using grow_to_header [OF grows inside] first n by simp_all
  have bl1: "local_address_beyond_last_element esz arr1 swath1 = Some (data_addr esz swath1 n)"
    using hdr1(2)
    by (simp add: local_address_beyond_last_element_def index_of_last_element_def
          local_address_beyond_nth_element_def)
  show ?thesis
  proof (cases "sizeof_swath + esz \<le> excess * esz")
    case True
    let ?sw2 = "data_addr esz swath1 n"
    let ?arr2 = "write_cell (write_cell arr1 ?sw2 (Ptr remote_addr)) (?sw2 + 8) (ULong 0)"
    let ?arr' = "write_cell (write_cell ?arr2 (data_addr esz ?sw2 0) (Entry new_elem))
                   (?sw2 + 8) (ULong (0 + 1))"
    have g: "grow_to realloc arr (data_addr esz swath n + sizeof_swath + esz) swath
               = Inr (arr1, swath1)"
      using grows True by (simp add: add.assoc)
    have nb2: "swath_number_of_bytes ?arr2 ?sw2 = Some 0"
      by (simp add: swath_number_of_bytes_def)
    have am: "add_me esz ?arr2 ?sw2 new_elem = Inr (?arr', ?sw2)"
      by (rule add_me_result [OF nb2]) simp
    have run: "add_element esz realloc arr swath remote_addr new_elem = Inr (?arr', ?sw2)"
      using n nonempty last bl g bl1 True am
      by (simp add: add_element_def of_read_def Let_def excess_def)
    have "swath_first_byte_in_child ?arr' ?sw2 = Some remote_addr"
      by (simp add: swath_first_byte_in_child_def data_addr_def sizeof_swath_def)
    moreover have "swath_number_of_bytes ?arr' ?sw2 = Some 1"
      by (simp add: swath_number_of_bytes_def)
    moreover have "swath_data esz ?arr' ?sw2 0 = Some new_elem"
      by (simp add: swath_data_def data_addr_def sizeof_swath_def)
    ultimately show ?thesis using True run by simp
  next
    case False
    let ?m = "n + (excess - 1)"
    let ?arr2 = "memset_zero esz arr1 (data_addr esz swath1 n) (excess * esz)"
    let ?arr3 = "write_cell ?arr2 (swath1 + 8) (ULong ?m)"
    let ?arr' = "write_cell (write_cell ?arr3 (data_addr esz swath1 ?m) (Entry new_elem))
                   (swath1 + 8) (ULong (?m + 1))"
    have g: "grow_to realloc arr (data_addr esz swath n + excess * esz) swath = Inr (arr1, swath1)"
      using grows False by simp
    have ex0: "excess \<noteq> 0"
      using beyond by (auto simp: excess_def)
    then have uex: "0 < unat excess" by (simp add: unat_gt_0)
    have um1: "unat (excess - 1) = unat excess - 1"
      using ex0 by (simp add: unat_minus_one)
    have cnt: "unat (excess * esz) div unat esz = unat excess"
      by (rule unat_excess_bytes(2) [OF esz nowrap])
    have zaddr: "data_addr esz swath1 n + of_nat i * esz = data_addr esz swath1 (n + of_nat i)" for i
      by (simp add: data_addr_def algebra_simps)
    have cell2: "cell_at ?arr2 q =
        (if \<exists>i<unat excess. q = data_addr esz swath1 (n + of_nat i) then Some (Entry zero_entry)
         else cell_at arr1 q)" for q
      by (simp add: cell_at_memset_zero cnt zaddr)
    have bound: "16 + unat (n + of_nat i) * unat esz < 2 ^ 64" if "i < unat excess" for i
      by (rule unat_index_in_padding(2) [OF esz nowrap that])
    have nothdr: "data_addr esz swath1 (n + of_nat i) \<noteq> swath1 + 8"
      "data_addr esz swath1 (n + of_nat i) \<noteq> swath1" if "i < unat excess" for i
      using data_addr_not_header [OF bound [OF that]] by blast+
    have "of_nat (unat excess - 1) = excess - 1"
      unfolding um1 [symmetric] by simp
    then have m_as_index: "?m = n + of_nat (unat excess - 1)"
      by simp
    have m_lt: "unat excess - 1 < unat excess" using uex by simp
    have mbound: "16 + unat ?m * unat esz < 2 ^ 64"
      unfolding m_as_index by (rule bound [OF m_lt])
    have m_nothdr: "data_addr esz swath1 ?m \<noteq> swath1 + 8" "data_addr esz swath1 ?m \<noteq> swath1"
      using data_addr_not_header [OF mbound] by blast+
    have "\<not> (\<exists>i<unat excess. swath1 + 8 = data_addr esz swath1 (n + of_nat i))"
      using nothdr(1) by metis
    then have keep8: "cell_at ?arr2 (swath1 + 8) = cell_at arr1 (swath1 + 8)"
      by (simp only: cell2 if_False)
    have "\<not> (\<exists>i<unat excess. swath1 = data_addr esz swath1 (n + of_nat i))"
      using nothdr(2) by metis
    then have keep0: "cell_at ?arr2 swath1 = cell_at arr1 swath1"
      by (simp only: cell2 if_False)
    have nb2: "swath_number_of_bytes ?arr2 swath1 = Some n"
      using hdr1(2) keep8 by (simp add: swath_number_of_bytes_def)
    have nb3: "swath_number_of_bytes ?arr3 swath1 = Some ?m"
      by (simp add: swath_number_of_bytes_def)
    have am: "add_me esz ?arr3 swath1 new_elem = Inr (?arr', swath1)"
      by (rule add_me_result [OF nb3 mbound])
    have run: "add_element esz realloc arr swath remote_addr new_elem = Inr (?arr', swath1)"
      using n nonempty last bl g bl1 False am nb2
      by (simp add: add_element_def of_read_def Let_def excess_def)
    have fst': "swath_first_byte_in_child ?arr' swath1 = Some first"
      using hdr1(1) keep0 m_nothdr(2) [symmetric]
      by (simp add: swath_first_byte_in_child_def)
    have nb': "swath_number_of_bytes ?arr' swath1 = Some (n + excess)"
      by (simp add: swath_number_of_bytes_def)
    have zeros: "swath_data esz ?arr' swath1 (n + i) = Some zero_entry" if "i < excess - 1" for i
    proof -
      have ui: "unat i < unat excess - 1" using that um1 by (simp add: word_less_nat_alt)
      then have ui': "unat i < unat excess" by simp
      have idx: "n + i = n + of_nat (unat i)" by simp
      have b: "16 + unat (n + i) * unat esz < 2 ^ 64"
        using bound [OF ui'] by simp
      have "i \<noteq> excess - 1" using that by simp
      then have "n + i \<noteq> ?m" by simp
      then have ne: "data_addr esz swath1 (n + i) \<noteq> data_addr esz swath1 ?m"
        using data_addr_eq_iff [OF esz b mbound] by simp
      have nh: "data_addr esz swath1 (n + i) \<noteq> swath1 + 8"
        using nothdr(1) [OF ui'] by simp
      have "cell_at ?arr2 (data_addr esz swath1 (n + i)) = Some (Entry zero_entry)"
        unfolding cell2 using ui' idx by (metis (full_types))
      then show ?thesis using ne nh by (simp add: swath_data_def)
    qed
    have "swath_data esz ?arr' swath1 ?m = Some new_elem"
      using m_nothdr(1) by (simp add: swath_data_def)
    moreover have "n + excess - 1 = ?m" by simp
    ultimately have new': "swath_data esz ?arr' swath1 (n + excess - 1) = Some new_elem"
      by (simp only:)
    have olds: "swath_data esz ?arr' swath1 i = swath_data esz arr swath i"
      if "i < n" "data_addr esz swath i - location arr < bytes_allocated arr" for i
    proof -
      have ui: "unat i < unat n" using that(1) by (simp add: word_less_nat_alt)
      have "(unat i) * unat esz \<le> (unat n + unat excess) * unat esz"
        using ui by (intro mult_le_mono1) simp
      then have b: "16 + unat i * unat esz < 2 ^ 64" using nowrap by linarith
      have "cell_at arr1 (data_addr esz swath i + (swath1 - swath)) = cell_at arr (data_addr esz swath i)"
        using g that(2) by (rule grow_to_cell_at)
      moreover have "data_addr esz swath i + (swath1 - swath) = data_addr esz swath1 i"
        by (simp add: data_addr_def)
      ultimately have c1: "cell_at arr1 (data_addr esz swath1 i) = cell_at arr (data_addr esz swath i)"
        by simp
      have "data_addr esz swath1 i \<noteq> data_addr esz swath1 (n + of_nat j)" if "j < unat excess" for j
      proof -
        have "unat (n + of_nat j) = unat n + j"
          by (rule unat_index_in_padding(1) [OF esz nowrap that])
        then have "i \<noteq> n + of_nat j" using ui by auto
        then show ?thesis
          using data_addr_eq_iff [OF esz b bound [OF that]] by simp
      qed
      then have "\<not> (\<exists>j<unat excess. data_addr esz swath1 i = data_addr esz swath1 (n + of_nat j))"
        by blast
      then have c2: "cell_at ?arr2 (data_addr esz swath1 i) = cell_at arr1 (data_addr esz swath1 i)"
        by (simp only: cell2 if_False)
      have "data_addr esz swath1 i \<noteq> data_addr esz swath1 ?m"
        using \<open>\<And>j. j < unat excess \<Longrightarrow> data_addr esz swath1 i \<noteq> data_addr esz swath1 (n + of_nat j)\<close> [OF m_lt]
        unfolding m_as_index .
      moreover have "data_addr esz swath1 i \<noteq> swath1 + 8"
        using data_addr_not_header(1) [OF b] by blast
      ultimately show ?thesis using c1 c2 by (simp add: swath_data_def)
    qed
    show ?thesis using False run fst' nb' zeros new' olds by auto
  qed
qed

theorem add_element_nonempty_witness:
  "\<exists>arr'. add_element 4 (\<lambda>p n. 0) one_swath_array 0x1010 0x400003 example_entry
            = Inr (arr', 0x1010)
      \<and> swath_first_byte_in_child arr' 0x1010 = Some 0x400000
      \<and> swath_number_of_bytes arr' 0x1010 = Some 4
      \<and> swath_data 4 arr' 0x1010 1 = Some zero_entry
      \<and> swath_data 4 arr' 0x1010 2 = Some zero_entry
      \<and> swath_data 4 arr' 0x1010 3 = Some example_entry"
proof -
  have g: "grow_to (\<lambda>p n. 0) one_swath_array
        (data_addr 4 0x1010 1 +
           (if sizeof_swath + 4 \<le> (0x400003 - (0x400000 + (1 - 1))) * 4 then sizeof_swath + 4
            else (0x400003 - (0x400000 + (1 - 1))) * 4)) 0x1010 = Inr (one_swath_array, 0x1010)"
    by (rule one_swath_grow) (simp add: data_addr_def sizeof_swath_def)
  have "\<exists>arr'. add_element 4 (\<lambda>p n. 0) one_swath_array 0x1010 0x400003 example_entry
            = Inr (arr', 0x1010)
      \<and> swath_first_byte_in_child arr' 0x1010 = Some 0x400000
      \<and> swath_number_of_bytes arr' 0x1010 = Some (1 + (0x400003 - (0x400000 + (1 - 1))))
      \<and> (\<forall>i. i < 1 \<and> data_addr 4 0x1010 i - location one_swath_array < bytes_allocated one_swath_array \<longrightarrow>
              swath_data 4 arr' 0x1010 i = swath_data 4 one_swath_array 0x1010 i)
      \<and> (\<forall>i. i < 0x400003 - (0x400000 + (1 - 1)) - 1 \<longrightarrow>
              swath_data 4 arr' 0x1010 (1 + i) = Some zero_entry)
      \<and> swath_data 4 arr' 0x1010 (1 + (0x400003 - (0x400000 + (1 - 1))) - 1) = Some example_entry"
    using add_element_nonempty [OF one_swath_header, where esz = 4 and remote_addr = "0x400003"
        and realloc = "\<lambda>p n. 0" and ?arr1.0 = one_swath_array and ?swath1.0 = "0x1010"
        and new_elem = example_entry, OF _ _ _ _ _ _ g]
    by (simp add: sizeof_swath_def one_swath_array_def)
  then obtain arr' where a: "add_element 4 (\<lambda>p n. 0) one_swath_array 0x1010 0x400003 example_entry
            = Inr (arr', 0x1010)"
      "swath_first_byte_in_child arr' 0x1010 = Some 0x400000"
      "swath_number_of_bytes arr' 0x1010 = Some (1 + (0x400003 - (0x400000 + (1 - 1))))"
      "\<forall>i. i < 0x400003 - (0x400000 + (1 - 1)) - 1 \<longrightarrow>
              swath_data 4 arr' 0x1010 (1 + i) = Some zero_entry"
      "swath_data 4 arr' 0x1010 (1 + (0x400003 - (0x400000 + (1 - 1))) - 1) = Some example_entry"
    by blast
  from a(4) [THEN spec, of 0] a(4) [THEN spec, of 1]
  have "swath_data 4 arr' 0x1010 (1 + 0) = Some zero_entry"
    "swath_data 4 arr' 0x1010 (1 + 1) = Some zero_entry"
    by simp_all
  with a(1,2,3,5) show ?thesis by simp
qed

text \<open>
  Claim C1 as stated measures the gap from \<open>first_byte_in_child + number_of_bytes\<close>, one
  past the last covered address. On the swath covering 0x400000 alone, the address
  0x400003 has gap 2: the claim pads with one zero entry and counts 1 + 2 bytes, where
  the code pads with two, stores the element at index 3 and counts 4. The address
  0x400005 has gap 4, and 4 entries of 4 bytes are fewer than the threshold of 20, yet
  the code starts a new swath (at 0x1024, right behind the one entry).
\<close>

theorem add_element_gap_counterexample:
  "(case add_element 4 (\<lambda>p n. 0) one_swath_array 0x1010 0x400003 example_entry of
      Inl e \<Rightarrow> False
    | Inr (arr', swath') \<Rightarrow>
        swath' = 0x1010
        \<and> swath_number_of_bytes arr' 0x1010 \<noteq> Some (1 + (0x400003 - (0x400000 + 1)))
        \<and> swath_data 4 arr' 0x1010 (1 + (0x400003 - (0x400000 + 1))) = Some example_entry
        \<and> swath_data 4 arr' 0x1010 (1 + ((0x400003 - (0x400000 + 1)) - 1)) = Some zero_entry)
   \<and> (0x400005 - (0x400000 + 1)) * 4 < sizeof_swath + (4 :: ulong)
   \<and> (case add_element 4 (\<lambda>p n. 0) one_swath_array 0x1010 0x400005 example_entry of
      Inl e \<Rightarrow> False
    | Inr (arr', swath') \<Rightarrow>
        swath' = 0x1024
        \<and> swath_first_byte_in_child arr' 0x1024 = Some 0x400005
        \<and> swath_number_of_bytes arr' 0x1010 = Some 1)"
  by code_simp

subsection \<open>data_to_val\<close>

text \<open>
  As long as \<open>swath_len - idx\<close> fits an \<open>int\<close>, the value gets the flags of every width
  that the remaining bytes cover, and its storage is the next \<open>min 8 (swath_len - idx)\<close>
  old values in order, followed by zeros.
\<close>

lemma int_of_long_in_range:
  fixes d :: ulong
  assumes "unat d < 2 ^ 31"
  shows "sint (ucast d :: 32 word) = int (unat d)"
proof -
  have "sint (ucast d :: 32 word) = signed_take_bit 31 (uint d)"
    by (simp add: signed_ucast_eq)
  also have "\<dots> = uint d"
  proof (rule signed_take_bit_int_eq_self)
    have "(0::int) \<le> uint d" by simp
    moreover have "- (2 ^ 31) \<le> (0::int)" by simp
    ultimately show "- (2 ^ 31) \<le> uint d" by (rule order_trans [rotated])
    show "uint d < 2 ^ 31" using assms
      by (metis of_nat_less_iff of_nat_numeral of_nat_power uint_nat)
  qed
  finally show ?thesis by (simp only: uint_nat)
qed

lemma copy_old_values_upt:
  assumes "\<forall>i<m. swath_data esz arr swath (idx + of_nat i) = Some (es i)"
    and "k \<le> m" and "m \<le> length bs"
  shows "copy_old_values esz arr swath idx [k..<m] bs =
           Inr (take k bs @ map (\<lambda>i. old_value (es i)) [k..<m] @ drop m bs)"
  using assms(2,3)
proof (induction "m - k" arbitrary: k bs)
  case 0
  then show ?case by simp
next
  case (Suc d)
  then have km: "k < m" by simp
  have step: "copy_old_values esz arr swath idx [k..<m] bs =
      copy_old_values esz arr swath idx [Suc k..<m] (bs[k := old_value (es k)])"
    using km assms(1) by (simp add: upt_conv_Cons)
  have "d = m - Suc k" using Suc.hyps(2) by simp
  from Suc.hyps(1) [OF this] km Suc.prems(2)
  have "copy_old_values esz arr swath idx [Suc k..<m] (bs[k := old_value (es k)]) =
      Inr (take (Suc k) (bs[k := old_value (es k)]) @ map (\<lambda>i. old_value (es i)) [Suc k..<m]
           @ drop m (bs[k := old_value (es k)]))"
    by simp
  moreover have "take (Suc k) (bs[k := old_value (es k)]) = take k bs @ [old_value (es k)]"
    using km Suc.prems(2) by (simp add: take_Suc_conv_app_nth)
  moreover have "drop m (bs[k := old_value (es k)]) = drop m bs"
    using km by simp
  ultimately show ?case using step km by (simp add: upt_conv_Cons)
qed

lemma data_to_val_aux_in_range:
  fixes swath_len idx :: ulong
  defines "m \<equiv> min 8 (unat (swath_len - idx))"
  assumes fits: "unat (swath_len - idx) < 2 ^ 31"
    and reads: "\<forall>i<m. swath_data esz arr swath (idx + of_nat i) = Some (es i)"
  shows "data_to_val_aux esz arr swath idx swath_len =
           Inr \<lparr>value_bytes = map (\<lambda>i. old_value (es i)) [0..<m] @ replicate (8 - m) 0,
                flags = zero_match_flags
                  \<lparr>u8b := 1 \<le> m, s8b := 1 \<le> m, u16b := 2 \<le> m, s16b := 2 \<le> m,
                   u32b := 4 \<le> m, s32b := 4 \<le> m, u64b := 8 \<le> m, s64b := 8 \<le> m,
                   f32b := 4 \<le> m, f64b := 8 \<le> m\<rparr>\<rparr>"
proof -
  have mb: "(if sint (ucast (swath_len - idx) :: 32 word) > 8 then 8
             else sint (ucast (swath_len - idx) :: 32 word)) = int m"
  proof -
    have "(if int u > 8 then 8 else int u) = int (min 8 u)" for u :: nat
      by (simp add: min_def)
    then show ?thesis
      unfolding int_of_long_in_range [OF fits] m_def .
  qed
  have m8: "m \<le> 8" by (simp add: m_def)
  have "copy_old_values esz arr swath idx [0..<m] (replicate 8 0) =
          Inr (take 0 (replicate 8 0) @ map (\<lambda>i. old_value (es i)) [0..<m]
               @ drop m (replicate 8 0))"
    using reads m8 by (intro copy_old_values_upt) simp_all
  then have "copy_old_values esz arr swath idx [0..<m] (replicate 8 0) =
          Inr (map (\<lambda>i. old_value (es i)) [0..<m] @ replicate (8 - m) 0)"
    by simp
  then show ?thesis
    unfolding data_to_val_aux_def Let_def mb
    by (simp add: zero_value_def)
qed

text \<open>
  Claim C9 asks this of every swath and index. The sources store the difference of two
  \<open>long\<close> in an \<open>int\<close> before they cap it at 8: for the swath of \<open>2 ^ 31\<close> bytes and
  index 0 the \<open>int\<close> is negative, so although the entries are there to be read, no
  flag is set and no byte is copied.
\<close>

theorem data_to_val_huge_swath:
  "swath_number_of_bytes huge_swath_array 0x1010 = Some 0x80000000
   \<and> (\<exists>e. swath_data 4 huge_swath_array 0x1010 0 = Some e \<and> old_value e = 0xAA)
   \<and> data_to_val 4 huge_swath_array 0x1010 0 = Inr zero_value"
  by (simp add: data_to_val_def data_to_val_aux_def huge_swath_array_def
        swath_number_of_bytes_def swath_data_def data_addr_def sizeof_swath_def
        cell_at_def zero_value_def zero_match_flags_def)

section \<open>Properties of the handlers\<close>

subsection \<open>Values of the examples\<close>

lemma max_width_zero [simp]: "flags_to_max_width_in_bytes zero_match_flags = 0"
  by (simp add: flags_to_max_width_in_bytes_def zero_match_flags_def)

lemma byte_match_simps [simp]:
  "flags_to_max_width_in_bytes (match_info (byte_match v)) = 1"
  "old_value (byte_match v) = v"
  "(byte_match v)\<lparr>match_info := zero_match_flags\<rparr> = \<lparr>old_value = v, match_info = zero_match_flags\<rparr>"
  by (simp_all add: byte_match_def flags_to_max_width_in_bytes_def zero_match_flags_def)

lemma zero_entry_simps [simp]:
  "match_info zero_entry = zero_match_flags"
  "old_value zero_entry = 0"
  "zero_entry\<lparr>match_info := zero_match_flags\<rparr> = zero_entry"
  by (simp_all add: zero_entry_def)

lemma strtok_commas_examples:
  "strtok_commas [] ''2,3'' = [''2'', ''3'']"
  "strtok_commas [] ''2'' = [''2'']"
  by simp_all

lemma strtoul_digit_examples:
  "strtoul_digit ''1'' 0 = (1, [])"
  "strtoul_digit ''2'' 0 = (2, [])"
  "strtoul_digit ''3'' 0 = (3, [])"
  by (simp_all add: strtoul_digit_def)

subsection \<open>handler__decinc\<close>

text \<open>
  Claim C4. In a session without a match store:
  \<^item> each of \<open>=\<close>, \<open>!=\<close>, \<open><\<close>, \<open>>\<close>, \<open>+\<close>, \<open>-\<close> without an operand reports
    the error, returns failure, leaves the session as it was and starts no scan;
  \<^item> so do \<open>+ N\<close> and \<open>- N\<close>, whether or not \<open>N\<close> parses;
  \<^item> \<open>= N\<close>, \<open>!= N\<close>, \<open>> N\<close>, \<open>< N\<close> with an operand that parses start the first scan
    of the regions with EqualTo, NotEqualTo, GreaterThan, LessThan, and return what the
    scan returns;
  \<^item> in terms of match types: once the operand has been accepted, Changed, NotChanged,
    Increased, Decreased, IncreasedBy and DecreasedBy are refused, and the last twelve
    conjuncts say which shorthand stands for which type.
\<close>

theorem handler__decinc_without_matches:
  assumes "matches vars = None"
  shows "(args = [] \<and> argv0 \<in> {''='', ''!='', ''<'', ''>'', ''+'', ''-''} \<longrightarrow>
            handler__decinc parse zero check search vars argv0 args
              = (False, vars, [Show_error ''cannot use that search without matches'' []]))
       \<and> (args = [operand] \<and> argv0 \<in> {''+'', ''-''} \<longrightarrow>
            (\<exists>msg. handler__decinc parse zero check search vars argv0 args
                     = (False, vars, [Show_error msg (if parse operand = None then [Str argv0] else [])])))
       \<and> (args = [operand] \<and> parse operand = Some val
            \<and> decinc_match_type argv0 (1 + length args) = Some m
            \<and> m \<in> {MATCHEQUALTO, MATCHNOTEQUALTO, MATCHGREATERTHAN, MATCHLESSTHAN} \<longrightarrow>
            handler__decinc parse zero check search vars argv0 args
              = (fst (search vars m val), snd (search vars m val),
                 Sm_searchregions m val #
                   (if fst (search vars m val) then match_identified (snd (search vars m val))
                    else [Show_error ''failed to search target address space.'' []])))
       \<and> (decinc_match_type argv0 (1 + length args) = Some m
            \<and> (args = [] \<or> (args = [operand] \<and> parse operand \<noteq> None))
            \<and> m \<in> {MATCHCHANGED, MATCHNOTCHANGED, MATCHINCREASED, MATCHDECREASED,
                     MATCHINCREASEDBY, MATCHDECREASEDBY} \<longrightarrow>
            handler__decinc parse zero check search vars argv0 args
              = (False, vars, [Show_error ''cannot use that search without matches'' []]))
       \<and> decinc_match_type ''='' 1 = Some MATCHNOTCHANGED
       \<and> decinc_match_type ''!='' 1 = Some MATCHCHANGED
       \<and> decinc_match_type ''<'' 1 = Some MATCHDECREASED
       \<and> decinc_match_type ''>'' 1 = Some MATCHINCREASED
       \<and> decinc_match_type ''+'' 1 = Some MATCHINCREASED
       \<and> decinc_match_type ''-'' 1 = Some MATCHDECREASED
       \<and> decinc_match_type ''+'' 2 = Some MATCHINCREASEDBY
       \<and> decinc_match_type ''-'' 2 = Some MATCHDECREASEDBY
       \<and> decinc_match_type ''='' 2 = Some MATCHEQUALTO
       \<and> decinc_match_type ''!='' 2 = Some MATCHNOTEQUALTO
       \<and> decinc_match_type ''>'' 2 = Some MATCHGREATERTHAN
       \<and> decinc_match_type ''<'' 2 = Some MATCHLESSTHAN"
proof -
  have a: "args = [] \<and> argv0 \<in> {''='', ''!='', ''<'', ''>'', ''+'', ''-''} \<longrightarrow>
            handler__decinc parse zero check search vars argv0 args
              = (False, vars, [Show_error ''cannot use that search without matches'' []])"
    using assms by (auto simp: handler__decinc_def decinc_match_type_def)
  have b: "args = [operand] \<and> argv0 \<in> {''+'', ''-''} \<longrightarrow>
            (\<exists>msg. handler__decinc parse zero check search vars argv0 args
                     = (False, vars, [Show_error msg (if parse operand = None then [Str argv0] else [])]))"
    using assms by (auto simp: handler__decinc_def decinc_match_type_def split: option.splits)
  have c: "args = [operand] \<and> parse operand = Some val
            \<and> decinc_match_type argv0 (1 + length args) = Some m
            \<and> m \<in> {MATCHEQUALTO, MATCHNOTEQUALTO, MATCHGREATERTHAN, MATCHLESSTHAN} \<longrightarrow>
            handler__decinc parse zero check search vars argv0 args
              = (fst (search vars m val), snd (search vars m val),
                 Sm_searchregions m val #
                   (if fst (search vars m val) then match_identified (snd (search vars m val))
                    else [Show_error ''failed to search target address space.'' []]))"
    using assms by (auto simp: handler__decinc_def split: prod.splits)
  have d: "decinc_match_type argv0 (1 + length args) = Some m
            \<and> (args = [] \<or> (args = [operand] \<and> parse operand \<noteq> None))
            \<and> m \<in> {MATCHCHANGED, MATCHNOTCHANGED, MATCHINCREASED, MATCHDECREASED,
                     MATCHINCREASEDBY, MATCHDECREASEDBY} \<longrightarrow>
            handler__decinc parse zero check search vars argv0 args
              = (False, vars, [Show_error ''cannot use that search without matches'' []])"
    using assms by (auto simp: handler__decinc_def)
  have e: "decinc_match_type ''='' 1 = Some MATCHNOTCHANGED"
       "decinc_match_type ''!='' 1 = Some MATCHCHANGED"
       "decinc_match_type ''<'' 1 = Some MATCHDECREASED"
       "decinc_match_type ''>'' 1 = Some MATCHINCREASED"
       "decinc_match_type ''+'' 1 = Some MATCHINCREASED"
       "decinc_match_type ''-'' 1 = Some MATCHDECREASED"
       "decinc_match_type ''+'' 2 = Some MATCHINCREASEDBY"
       "decinc_match_type ''-'' 2 = Some MATCHDECREASEDBY"
       "decinc_match_type ''='' 2 = Some MATCHEQUALTO"
       "decinc_match_type ''!='' 2 = Some MATCHNOTEQUALTO"
       "decinc_match_type ''>'' 2 = Some MATCHGREATERTHAN"
       "decinc_match_type ''<'' 2 = Some MATCHLESSTHAN"
    by (simp_all add: decinc_match_type_def)
  from a b c d e show ?thesis by (intro conjI)
qed

theorem handler__decinc_without_matches_witness:
  "handler__decinc (\<lambda>s. if s = ''100'' then Some (100::nat) else None) 0
       (\<lambda>v m u. (True, v)) (\<lambda>v m u. (True, v\<lparr>matches := Some [], num_matches := 2\<rparr>))
       fresh_session ''<'' []
     = (False, fresh_session, [Show_error ''cannot use that search without matches'' []])
   \<and> handler__decinc (\<lambda>s. if s = ''100'' then Some (100::nat) else None) 0
       (\<lambda>v m u. (True, v)) (\<lambda>v m u. (True, v\<lparr>matches := Some [], num_matches := 2\<rparr>))
       fresh_session ''+'' [''100'']
     = (False, fresh_session, [Show_error ''cannot use that search without matches'' []])
   \<and> handler__decinc (\<lambda>s. if s = ''100'' then Some (100::nat) else None) 0
       (\<lambda>v m u. (True, v)) (\<lambda>v m u. (True, v\<lparr>matches := Some [], num_matches := 2\<rparr>))
       fresh_session ''='' [''100'']
     = (True, fresh_session\<lparr>matches := Some [], num_matches := 2\<rparr>,
        [Sm_searchregions MATCHEQUALTO 100])"
proof -
  let ?parse = "\<lambda>s. if s = ''100'' then Some (100::nat) else None"
  let ?check = "\<lambda>(v::globals_t) (m::scan_match_type_t) (u::nat). (True, v)"
  let ?search = "\<lambda>(v::globals_t) (m::scan_match_type_t) (u::nat).
                   (True, v\<lparr>matches := Some [], num_matches := 2\<rparr>)"
  have none: "matches fresh_session = None" by (simp add: fresh_session_def)
  have "handler__decinc ?parse 0 ?check ?search fresh_session ''<'' []
          = (False, fresh_session, [Show_error ''cannot use that search without matches'' []])"
    using handler__decinc_without_matches [OF none, where args = "[]" and ?argv0.0 = "''<''"
        and parse = ?parse and zero = 0 and check = ?check and search = ?search]
    by (simp add: decinc_match_type_def)
  moreover
  have "handler__decinc ?parse 0 ?check ?search fresh_session ''+'' [''100'']
          = (False, fresh_session, [Show_error ''cannot use that search without matches'' []])"
    using handler__decinc_without_matches [OF none, where args = "[''100'']"
        and ?argv0.0 = "''+''" and operand = "''100''" and m = MATCHINCREASEDBY
        and parse = ?parse and zero = 0 and check = ?check and search = ?search]
    by (simp add: decinc_match_type_def)
  moreover
  have "handler__decinc ?parse 0 ?check ?search fresh_session ''='' [''100'']
          = (True, fresh_session\<lparr>matches := Some [], num_matches := 2\<rparr>,
             [Sm_searchregions MATCHEQUALTO 100])"
    using handler__decinc_without_matches [OF none, where args = "[''100'']"
        and ?argv0.0 = "''=''" and operand = "''100''" and val = 100 and m = MATCHEQUALTO
        and parse = ?parse and zero = 0 and check = ?check and search = ?search]
    by (simp add: match_identified_def decinc_match_type_def)
  ultimately show ?thesis by simp
qed

subsection \<open>handler__delete\<close>

lemma match_locations_valid:
  "(a, i) \<in> set (match_locations k sws) \<Longrightarrow>
     k \<le> a \<and> a < k + length sws \<and> i < length (data (sws ! (a - k)))
     \<and> flags_to_max_width_in_bytes (match_info (data (sws ! (a - k)) ! i)) > 0"
proof (induction sws arbitrary: k)
  case Nil
  then show ?case by simp
next
  case (Cons sw sws)
  from Cons.prems consider "(a, i) \<in> set (swath_matches k sw)"
    | "(a, i) \<in> set (match_locations (Suc k) sws)" by auto
  then show ?case
  proof cases
    case 1
    then show ?thesis by (auto simp: swath_matches_def)
  next
    case 2
    from Cons.IH [OF 2] show ?thesis by (auto simp: Suc_diff_le)
  qed
qed

lemma nth_match_resolved:
  assumes "nth_match store n = \<lparr>loc_swath = Some k, loc_index = i\<rparr>"
  shows "\<exists>sws. store = Some sws \<and> k < length sws \<and> i < length (data (sws ! k))
           \<and> flags_to_max_width_in_bytes (match_info (data (sws ! k) ! i)) > 0"
proof (cases store)
  case None
  with assms show ?thesis by (simp add: nth_match_def)
next
  case (Some sws)
  with assms have n: "unat n < length (match_locations 0 sws)"
    and "match_locations 0 sws ! unat n = (k, i)"
    by (auto simp: nth_match_def Let_def prod_eq_iff split: if_splits)
  then have "(k, i) \<in> set (match_locations 0 sws)"
    by (metis nth_mem)
  from match_locations_valid [OF this] Some show ?thesis by simp
qed

text \<open>
  Claim C5. When the argument parses and \<open>nth_match\<close> resolves the ordinal to entry
  \<open>i\<close> of swath \<open>k\<close>, the command succeeds, the session afterwards has that entry's
  \<open>match_info\<close> zeroed and its old value kept, every other entry, every swath's first
  address and length, and the number of swaths as before, and \<open>num_matches\<close> one less.
  When the argument is empty, is not read to its end, or resolves to no entry, the command
  fails and returns the session unchanged.
\<close>

theorem handler__delete_entry:
  "(argv = [cmd, arg] \<and> arg \<noteq> [] \<and> strtoul arg 0 = (parsed, [])
      \<and> nth_match (matches vars) (ucast parsed) = \<lparr>loc_swath = Some k, loc_index = i\<rparr> \<longrightarrow>
      (\<exists>sws. matches vars = Some sws \<and> k < length sws \<and> i < length (data (sws ! k))
         \<and> handler__delete strtoul vars argv
             = (True, vars\<lparr>matches := Some (clear_match_info sws k i),
                          num_matches := num_matches vars - 1\<rparr>, [])
         \<and> length (clear_match_info sws k i) = length sws
         \<and> (\<forall>k'<length sws.
               first_byte_in_child (clear_match_info sws k i ! k') = first_byte_in_child (sws ! k')
               \<and> length (data (clear_match_info sws k i ! k')) = length (data (sws ! k')))
         \<and> match_info (data (clear_match_info sws k i ! k) ! i) = zero_match_flags
         \<and> old_value (data (clear_match_info sws k i ! k) ! i) = old_value (data (sws ! k) ! i)
         \<and> (\<forall>k' i'. (k', i') \<noteq> (k, i) \<longrightarrow>
               data (clear_match_info sws k i ! k') ! i' = data (sws ! k') ! i')))
   \<and> (argv = [cmd, arg]
      \<and> (arg = [] \<or> snd (strtoul arg 0) \<noteq> []
          \<or> loc_swath (nth_match (matches vars) (ucast (fst (strtoul arg 0)))) = None) \<longrightarrow>
      (\<exists>evs. handler__delete strtoul vars argv = (False, vars, evs)))"
proof (intro conjI impI)
  assume a: "argv = [cmd, arg] \<and> arg \<noteq> [] \<and> strtoul arg 0 = (parsed, [])
      \<and> nth_match (matches vars) (ucast parsed) = \<lparr>loc_swath = Some k, loc_index = i\<rparr>"
  then obtain sws where s: "matches vars = Some sws" "k < length sws"
    "i < length (data (sws ! k))"
    using nth_match_resolved by blast
  have run: "handler__delete strtoul vars argv
             = (True, vars\<lparr>matches := Some (clear_match_info sws k i),
                          num_matches := num_matches vars - 1\<rparr>, [])"
    using a s(1) by (simp add: handler__delete_def)
  have others: "data (clear_match_info sws k i ! k') ! i' = data (sws ! k') ! i'"
    if "(k', i') \<noteq> (k, i)" for k' i'
  proof (cases "k' = k")
    case True
    with that have "i' \<noteq> i" by simp
    with True s(2) show ?thesis by (simp add: clear_match_info_def)
  next
    case False
    then show ?thesis by (simp add: clear_match_info_def)
  qed
  have hdrs: "first_byte_in_child (clear_match_info sws k i ! k') = first_byte_in_child (sws ! k')
      \<and> length (data (clear_match_info sws k i ! k')) = length (data (sws ! k'))"
    if "k' < length sws" for k'
    using that by (cases "k' = k") (simp_all add: clear_match_info_def)
  have "match_info (data (clear_match_info sws k i ! k) ! i) = zero_match_flags"
    "old_value (data (clear_match_info sws k i ! k) ! i) = old_value (data (sws ! k) ! i)"
    "length (clear_match_info sws k i) = length sws"
    using s(2,3) by (simp_all add: clear_match_info_def)
  with s run others hdrs
  show "\<exists>sws. matches vars = Some sws \<and> k < length sws \<and> i < length (data (sws ! k))
         \<and> handler__delete strtoul vars argv
             = (True, vars\<lparr>matches := Some (clear_match_info sws k i),
                          num_matches := num_matches vars - 1\<rparr>, [])
         \<and> length (clear_match_info sws k i) = length sws
         \<and> (\<forall>k'<length sws.
               first_byte_in_child (clear_match_info sws k i ! k') = first_byte_in_child (sws ! k')
               \<and> length (data (clear_match_info sws k i ! k')) = length (data (sws ! k')))
         \<and> match_info (data (clear_match_info sws k i ! k) ! i) = zero_match_flags
         \<and> old_value (data (clear_match_info sws k i ! k) ! i) = old_value (data (sws ! k) ! i)
         \<and> (\<forall>k' i'. (k', i') \<noteq> (k, i) \<longrightarrow>
               data (clear_match_info sws k i ! k') ! i' = data (sws ! k') ! i')"
    by blast
next
  assume "argv = [cmd, arg]
      \<and> (arg = [] \<or> snd (strtoul arg 0) \<noteq> []
          \<or> loc_swath (nth_match (matches vars) (ucast (fst (strtoul arg 0)))) = None)"
  then show "\<exists>evs. handler__delete strtoul vars argv = (False, vars, evs)"
    by (auto simp: handler__delete_def Let_def split: prod.splits option.splits)
qed

theorem handler__delete_entry_witness:
  "(handler__delete strtoul_digit narrowing_session [''delete'', ''1''] :: bool \<times> globals_t \<times> nat event list)
     = (True,
        narrowing_session
          \<lparr>matches := Some
             [\<lparr>first_byte_in_child = 0x400010,
               data = [byte_match 100, zero_entry,
                       \<lparr>old_value = 100, match_info = zero_match_flags\<rparr>]\<rparr>,
              \<lparr>first_byte_in_child = 0x600020, data = [byte_match 100]\<rparr>,
              \<lparr>first_byte_in_child = 0x7f0040, data = [byte_match 100]\<rparr>],
           num_matches := 3\<rparr>, [])
   \<and> (\<exists>evs :: nat event list.
         handler__delete strtoul_digit narrowing_session [''delete'', ''x'']
           = (False, narrowing_session, evs))
   \<and> (\<exists>evs :: nat event list.
         handler__delete strtoul_digit narrowing_session [''delete'', ''7'']
           = (False, narrowing_session, evs))"
proof -
  have loc: "nth_match (matches narrowing_session) (ucast (1 :: ulong))
               = \<lparr>loc_swath = Some 0, loc_index = 2\<rparr>"
    by code_simp
  have none: "loc_swath (nth_match (matches narrowing_session)
                (ucast (fst (strtoul_digit ''7'' 0)))) = None"
    by code_simp
  have p1: "strtoul_digit ''1'' 0 = (1, [])" by code_simp
  have px: "snd (strtoul_digit ''x'' 0) \<noteq> []" by code_simp
  note t = handler__delete_entry [where strtoul = strtoul_digit and vars = narrowing_session]
  from t [where argv = "[''delete'', ''1'']" and cmd = "''delete''" and arg = "''1''"
          and parsed = 1 and k = 0 and i = 2] p1 loc
  obtain sws where "matches narrowing_session = Some sws"
    "(handler__delete strtoul_digit narrowing_session [''delete'', ''1''] :: bool \<times> globals_t \<times> nat event list)
             = (True, narrowing_session\<lparr>matches := Some (clear_match_info sws 0 2),
                          num_matches := num_matches narrowing_session - 1\<rparr>, [])"
    by auto
  then have a: "(handler__delete strtoul_digit narrowing_session [''delete'', ''1''] :: bool \<times> globals_t \<times> nat event list)
     = (True,
        narrowing_session
          \<lparr>matches := Some
             [\<lparr>first_byte_in_child = 0x400010,
               data = [byte_match 100, zero_entry,
                       \<lparr>old_value = 100, match_info = zero_match_flags\<rparr>]\<rparr>,
              \<lparr>first_byte_in_child = 0x600020, data = [byte_match 100]\<rparr>,
              \<lparr>first_byte_in_child = 0x7f0040, data = [byte_match 100]\<rparr>],
           num_matches := 3\<rparr>, [])"
    by (auto simp: narrowing_session_def clear_match_info_def byte_match_def)
  from t [where argv = "[''delete'', ''x'']" and cmd = "''delete''" and arg = "''x''",
          THEN conjunct2] px
  have b: "\<exists>evs :: nat event list.
         handler__delete strtoul_digit narrowing_session [''delete'', ''x'']
           = (False, narrowing_session, evs)"
    by simp
  from t [where argv = "[''delete'', ''7'']" and cmd = "''delete''" and arg = "''7''",
          THEN conjunct2] none
  have c: "\<exists>evs :: nat event list.
         handler__delete strtoul_digit narrowing_session [''delete'', ''7'']
           = (False, narrowing_session, evs)"
    by simp
  from a b c show ?thesis by (intro conjI)
qed

subsection \<open>handler__dregion\<close>

text \<open>
  The command with \<open>!\<close>, in general. When every id of the list is read to its end,
  no id comes twice and each names a region of the list, the regions list becomes the
  listed regions in the order of the list, and the store is swept once, for the first of
  them (when there are matches at all).
\<close>

lemma find_remove_region_other:
  "i \<noteq> j \<Longrightarrow> find (\<lambda>r. region_id r = j) (remove_region i rs) = find (\<lambda>r. region_id r = j) rs"
  by (induction rs) auto

lemma dregion_loop_inverted:
  assumes "\<forall>t \<in> set toks. t \<noteq> [] \<and> snd (strtoul t 0) = []"
    and "distinct (listed_ids strtoul toks)"
    and "\<forall>i \<in> set (listed_ids strtoul toks). find (\<lambda>r. region_id r = i) (regions vars) \<noteq> None"
    and "\<forall>l x. l_append lib l x = Some (l @ [x])"
  shows "dregion_loop lib strtoul True toks vars keep evs =
           Inr (Inr (vars\<lparr>regions := fold remove_region (listed_ids strtoul toks) (regions vars)\<rparr>,
                     keep @ listed_regions (regions vars) (listed_ids strtoul toks), evs))"
  using assms(1,2,3)
proof (induction toks arbitrary: vars keep)
  case Nil
  then show ?case by (simp add: listed_ids_def listed_regions_def)
next
  case (Cons t toks)
  obtain parsed where p: "strtoul t 0 = (parsed, [])"
    using Cons.prems(1) by (cases "strtoul t 0") auto
  let ?i = "ucast parsed :: 32 word"
  have ids: "listed_ids strtoul (t # toks) = ?i # listed_ids strtoul toks"
    using p by (simp add: listed_ids_def)
  from Cons.prems(3) ids obtain r where r: "find (\<lambda>r. region_id r = ?i) (regions vars) = Some r"
    by auto
  let ?vars1 = "vars\<lparr>regions := remove_region ?i (regions vars)\<rparr>"
  have others: "find (\<lambda>r. region_id r = j) (regions ?vars1) = find (\<lambda>r. region_id r = j) (regions vars)"
    if "j \<in> set (listed_ids strtoul toks)" for j
  proof -
    from that Cons.prems(2) ids have "?i \<noteq> j" by auto
    then show ?thesis by (simp add: find_remove_region_other)
  qed
  have IH: "dregion_loop lib strtoul True toks ?vars1 (keep @ [r]) evs =
           Inr (Inr (?vars1\<lparr>regions := fold remove_region (listed_ids strtoul toks) (regions ?vars1)\<rparr>,
                     (keep @ [r]) @ listed_regions (regions ?vars1) (listed_ids strtoul toks), evs))"
  proof (rule Cons.IH)
    show "\<forall>t \<in> set toks. t \<noteq> [] \<and> snd (strtoul t 0) = []" using Cons.prems(1) by simp
    show "distinct (listed_ids strtoul toks)" using Cons.prems(2) ids by simp
    show "\<forall>i \<in> set (listed_ids strtoul toks). find (\<lambda>r. region_id r = i) (regions ?vars1) \<noteq> None"
      using Cons.prems(3) ids others by simp
  qed
  have same: "listed_regions (regions ?vars1) (listed_ids strtoul toks)
                = listed_regions (regions vars) (listed_ids strtoul toks)"
    unfolding listed_regions_def
    by (rule arg_cong [where f = concat], rule map_cong [OF refl]) (simp only: others)
  have t0: "t \<noteq> []" using Cons.prems(1) by simp
  show ?case
    using p r t0 assms(4) IH same ids
    by (simp add: listed_regions_def)
qed

lemma handler__dregion_inverted:
  assumes "argv = [cmd, CHR ''!'' # idlist]" and "target vars \<noteq> 0"
    and "strtok_commas [] idlist = toks" and "toks \<noteq> []"
    and "\<forall>t \<in> set toks. t \<noteq> [] \<and> snd (strtoul t 0) = []"
    and "distinct (listed_ids strtoul toks)"
    and "\<forall>i \<in> set (listed_ids strtoul toks). find (\<lambda>r. region_id r = i) (regions vars) \<noteq> None"
    and "l_init lib = Some []" and "\<forall>l x. l_append lib l x = Some (l @ [x])"
    and "kept = listed_regions (regions vars) (listed_ids strtoul toks)"
  shows "kept \<noteq> []"
    and "(handler__dregion lib strtoul vars argv :: error + bool \<times> globals_t \<times> 'u event list) =
          (case delete_matches
                  (vars\<lparr>regions := fold remove_region (listed_ids strtoul toks) (regions vars)\<rparr>)
                  (hd kept) True [] of
             Inl e \<Rightarrow> Inl e
           | Inr (vars2, evs2) \<Rightarrow> Inr (True, vars2\<lparr>regions := kept\<rparr>, evs2))"
proof -
  obtain t ts where toks: "toks = t # ts" using assms(4) by (cases toks) auto
  with assms(7) obtain r where "find (\<lambda>r. region_id r = ucast (fst (strtoul t 0))) (regions vars) = Some r"
    by (auto simp: listed_ids_def)
  then show ne: "kept \<noteq> []"
    using assms(10) toks by (simp add: listed_regions_def listed_ids_def)
  have idlist: "idlist \<noteq> []" using assms(3,4) by auto
  have loop: "dregion_loop lib strtoul True toks vars [] [] =
           Inr (Inr (vars\<lparr>regions := fold remove_region (listed_ids strtoul toks) (regions vars)\<rparr>,
                     kept, [] :: 'u event list))"
    using dregion_loop_inverted [OF assms(5,6,7,9), of "[]" "[]"] assms(10) by simp
  show "(handler__dregion lib strtoul vars argv :: error + bool \<times> globals_t \<times> 'u event list) =
          (case delete_matches
                  (vars\<lparr>regions := fold remove_region (listed_ids strtoul toks) (regions vars)\<rparr>)
                  (hd kept) True [] of
             Inl e \<Rightarrow> Inl e
           | Inr (vars2, evs2) \<Rightarrow> Inr (True, vars2\<lparr>regions := kept\<rparr>, evs2))"
    using assms(1,2,3,8) idlist loop ne
    by (cases kept) (auto simp: handler__dregion_def split: sum.splits)
qed

text \<open>
  Claim C6 holds for its example: with regions 1, 2, 3 the command \<open>dregion !2\<close> leaves
  region 2 alone in the list and clears the entries outside it.
\<close>

lemma handler__dregion_inverted_single:
  "(handler__dregion list_library_ok strtoul_digit narrowing_session [''dregion'', ''!2'']
      :: error + bool \<times> globals_t \<times> nat event list)
     = Inr (True,
            narrowing_session
              \<lparr>matches := Some
                 [\<lparr>first_byte_in_child = 0x400010,
                   data = [\<lparr>old_value = 100, match_info = zero_match_flags\<rparr>, zero_entry,
                           \<lparr>old_value = 100, match_info = zero_match_flags\<rparr>]\<rparr>,
                  \<lparr>first_byte_in_child = 0x600020, data = [byte_match 100]\<rparr>,
                  \<lparr>first_byte_in_child = 0x7f0040,
                   data = [\<lparr>old_value = 100, match_info = zero_match_flags\<rparr>]\<rparr>],
               num_matches := 1, regions := [region2]\<rparr>, [])"
  by (simp add: handler__dregion_def delete_matches_def list_library_ok_def
        strtok_commas_examples strtoul_digit_examples narrowing_session_def
        delete_by_region_def sweep_swath_def in_region_def swath_matches_def
        region1_def region2_def region3_def word_sless_alt)

text \<open>
  Claim C6 fails when the list names more than one region. After the loop the handler
  sweeps the store once, with \<open>keep->head\<close> only, where the branch without \<open>!\<close> sweeps
  for every region it lists. \<open>dregion !2,3\<close> leaves regions 2 and 3 in the list, as
  claimed, but the match at 0x7f0040, inside the surviving region 3, loses its flags:
  only the match of region 2 is left.
\<close>

theorem handler__dregion_inverted_pair:
  "(handler__dregion list_library_ok strtoul_digit narrowing_session [''dregion'', ''!2,3'']
      :: error + bool \<times> globals_t \<times> nat event list)
     = Inr (True,
            narrowing_session
              \<lparr>matches := Some
                 [\<lparr>first_byte_in_child = 0x400010,
                   data = [\<lparr>old_value = 100, match_info = zero_match_flags\<rparr>, zero_entry,
                           \<lparr>old_value = 100, match_info = zero_match_flags\<rparr>]\<rparr>,
                  \<lparr>first_byte_in_child = 0x600020, data = [byte_match 100]\<rparr>,
                  \<lparr>first_byte_in_child = 0x7f0040,
                   data = [\<lparr>old_value = 100, match_info = zero_match_flags\<rparr>]\<rparr>],
               num_matches := 1, regions := [region2, region3]\<rparr>, [])
   \<and> in_region region3 (0x7f0040 + 0)
   \<and> flags_to_max_width_in_bytes (match_info (byte_match 100)) = 1"
  by (simp add: handler__dregion_def delete_matches_def list_library_ok_def
        strtok_commas_examples strtoul_digit_examples narrowing_session_def
        delete_by_region_def sweep_swath_def in_region_def swath_matches_def
        region1_def region2_def region3_def word_sless_alt)

subsection \<open>handler__watch\<close>













subsection \<open>handler__dump\<close>

lemma skip_step:
  fixes j :: int
  assumes "j mod 16 \<noteq> 0"
  shows "(16 - j mod 16) mod 16 = 1 + (16 - (j + 1) mod 16) mod 16"
proof -
  define r where "r = j mod 16"
  have r: "0 < r" "r < 16" using assms by (simp_all add: r_def le_less)
  have s: "(j + 1) mod 16 = (r + 1) mod 16" by (simp add: r_def mod_add_left_eq)
  have b: "(16 - r) mod 16 = 16 - r"
    by (rule mod_pos_pos_trivial) (use r in linarith)+
  show ?thesis
  proof (cases "r = 15")
    case True
    then show ?thesis unfolding s r_def [symmetric] by simp
  next
    case False
    with r have lt: "r + 1 < 16" by simp
    have a: "(r + 1) mod 16 = r + 1"
      by (rule mod_pos_pos_trivial) (use r lt in linarith)+
    have c: "(16 - (r + 1)) mod 16 = 16 - (r + 1)"
      by (rule mod_pos_pos_trivial) (use r lt in linarith)+
    show ?thesis unfolding s r_def [symmetric] a c b by linarith
  qed
qed

lemma skip_empty_eq: "skip_empty j = replicate (3 * nat ((16 - j mod 16) mod 16)) CHR '' ''"
proof (induction j rule: skip_empty.induct)
  case (1 j)
  show ?case
  proof (cases "j mod 16 = 0")
    case True
    then show ?thesis by (subst skip_empty.simps) simp
  next
    case False
    have "0 \<le> (16 - (j + 1) mod 16) mod 16" by simp
    with skip_step [OF False]
    have n: "nat ((16 - j mod 16) mod 16) = Suc (nat ((16 - (j + 1) mod 16) mod 16))"
      by linarith
    have "skip_empty j = ''   '' @ skip_empty (j + 1)"
      using False by (subst skip_empty.simps) simp
    also have "\<dots> = ''   '' @ replicate (3 * nat ((16 - (j + 1) mod 16) mod 16)) CHR '' ''"
      using 1 [OF False] by simp
    also have "\<dots> = replicate (3 * nat ((16 - j mod 16) mod 16)) CHR '' ''"
      unfolding n by (simp add: numeral_3_eq_3)
    finally show ?thesis .
  qed
qed

lemma map_nth_take_drop:
  "i + m \<le> length xs \<Longrightarrow> map (\<lambda>j. f (xs ! (i + j))) [0..<m] = map f (take m (drop i xs))"
  by (simp add: list_eq_iff_nth_eq)

lemma rows_of_16_unfold:
  "xs \<noteq> [] \<Longrightarrow> rows_of_16 xs = take 16 xs # rows_of_16 (drop 16 xs)"
  "rows_of_16 [] = []"
  by (subst rows_of_16.simps, simp)+

text \<open>
  The two printers of the source against the spec's words: \<open>%02X\<close> writes the two
  hexadecimal digits of the byte, which read back as its value, and the test with
  \<open>isprint\<close> keeps the printable ASCII characters.
\<close>

lemma hex_digit_char: "d < 16 \<Longrightarrow> hex_digit d = hex_char d"
proof -
  assume "d < 16"
  then have "d \<in> set [0..<16]" by simp
  moreover have "\<forall>d \<in> set [0..<16]. hex_digit d = hex_char d"
    by code_simp
  ultimately show ?thesis by blast
qed

lemma hex_char_value: "d < 16 \<Longrightarrow> hex_digit_value (hex_char d) = Some d"
proof -
  assume "d < 16"
  then have "d \<in> set [0..<16]" by simp
  moreover have "\<forall>d \<in> set [0..<16]. hex_digit_value (hex_char d) = Some d"
    by code_simp
  ultimately show ?thesis by blast
qed

lemma two_digit_hex_value: "hex_value (two_digit_hex b) = Some (unat b)"
proof -
  have "unat b < 256" using unsigned_less [where w = b and ?'a = nat] by simp
  then have "unat b div 16 < 16" by simp
  then show ?thesis
    by (simp add: hex_value_def two_digit_hex_def hex_char_value)
qed

lemma print_hex_two_digit: "print_hex = (\<lambda>b. two_digit_hex b @ '' '')"
proof (rule ext)
  fix b :: "8 word"
  have "unat b < 256" using unsigned_less [where w = b and ?'a = nat] by simp
  then have "unat b div 16 < 16" by simp
  then show "print_hex b = two_digit_hex b @ '' ''"
    by (simp add: print_hex_def two_digit_hex_def hex_digit_char)
qed

lemma print_char_panel: "print_char = panel_char"
proof (rule ext)
  fix b :: "8 word"
  have "unat b < 256" using unsigned_less [where w = b and ?'a = nat] by simp
  then have "(of_char (char_of (unat b)) :: nat) = unat b" by simp
  then show "print_char b = panel_char b"
    by (simp add: print_char_def panel_char_def isprint_def printable_ascii_def)
qed

lemma dump_row_printed:
  "dump_row with_address with_ascii fmt_p addr (k, bytes) =
     (if with_address then fmt_p (addr + 16 * of_nat k) @ '': '' else [])
     @ concat (map print_hex bytes)
     @ (if with_ascii
        then replicate (3 * (16 - length bytes)) CHR '' '' @ map print_char bytes
        else [])
     @ [CHR 0x0A]"
  by (simp add: dump_row_def print_hex_two_digit print_char_panel)

lemma dump_from:
  assumes "len = int (length buf)" and "i = 16 * int k" and "i \<le> len"
  shows "(case dump_rows b a fmt_p addr buf len i i of
            (out, i', buf_idx') \<Rightarrow> out @ dump_last_row b a fmt_p addr buf len i' buf_idx')
         = concat (map (dump_row (b = 0) (a \<noteq> 0) fmt_p addr)
                     (enumerate k (rows_of_16 (drop (nat i) buf))))"
  using assms(2,3)
proof (induction "nat (len - i)" arbitrary: i k rule: less_induct)
  case less
  have ni: "nat i = 16 * k" using less.prems(1) by simp
  have addr: "addr + of_int i = addr + 16 * of_nat k"
    using less.prems(1) by simp
  show ?case
  proof (cases "i + 16 < len")
    case True
    have long: "16 * k + 16 < length buf" using True assms(1) less.prems(1) by linarith
    then have ne: "drop (nat i) buf \<noteq> []" using ni by simp
    have hexes: "map (\<lambda>j. print_hex (buf ! nat (i + int j))) [0..<16]
                  = map print_hex (take 16 (drop (nat i) buf))"
    proof -
      have "nat (i + int j) = nat i + j" for j using less.prems(1) by simp
      then show ?thesis using long ni map_nth_take_drop [of "nat i" 16 buf print_hex]
        by simp
    qed
    have chars: "map (\<lambda>j. print_char (buf ! nat (i + int j))) [0..<16]
                  = map print_char (take 16 (drop (nat i) buf))"
    proof -
      have "nat (i + int j) = nat i + j" for j using less.prems(1) by simp
      then show ?thesis using long ni map_nth_take_drop [of "nat i" 16 buf print_char]
        by simp
    qed
    have len16: "length (take 16 (drop (nat i) buf)) = 16" using long ni by simp
    have rest: "(case dump_rows b a fmt_p addr buf len (i + 16) (i + 16) of
            (out, i', buf_idx') \<Rightarrow> out @ dump_last_row b a fmt_p addr buf len i' buf_idx')
         = concat (map (dump_row (b = 0) (a \<noteq> 0) fmt_p addr)
                     (enumerate (Suc k) (rows_of_16 (drop (nat (i + 16)) buf))))"
    proof (rule less.hyps)
      show "nat (len - (i + 16)) < nat (len - i)" using True by simp
      show "i + 16 = 16 * int (Suc k)" using less.prems(1) by simp
      show "i + 16 \<le> len" using True by simp
    qed
    have dd: "drop 16 (drop (nat i) buf) = drop (nat (i + 16)) buf"
      using less.prems(1) by (simp add: add.commute nat_add_distrib)
    have "(case dump_rows b a fmt_p addr buf len i i of
            (out, i', buf_idx') \<Rightarrow> out @ dump_last_row b a fmt_p addr buf len i' buf_idx')
        = dump_row (b = 0) (a \<noteq> 0) fmt_p addr (k, take 16 (drop (nat i) buf))
          @ (case dump_rows b a fmt_p addr buf len (i + 16) (i + 16) of
            (out, i', buf_idx') \<Rightarrow> out @ dump_last_row b a fmt_p addr buf len i' buf_idx')"
      using True hexes chars len16 addr
      by (subst dump_rows.simps)
         (simp add: dump_row_printed print_address_def split: prod.splits)
    then show ?thesis
      unfolding rest rows_of_16_unfold(1) [OF ne] dd by simp
  next
    case False
    have stop: "dump_rows b a fmt_p addr buf len i i = ([], i, i)"
      using False by (subst dump_rows.simps) simp
    show ?thesis
    proof (cases "i < len")
      case False
      with less.prems(2) have "i = len" by simp
      then have "drop (nat i) buf = []" using assms(1) by simp
      then show ?thesis using stop False
        by (simp add: dump_last_row_def rows_of_16_unfold(2))
    next
      case True
      let ?rest = "drop (nat i) buf"
      have lr: "length ?rest = nat (len - i)" using assms(1) less.prems by simp
      have pos: "0 < length ?rest" "length ?rest \<le> 16"
        using True \<open>\<not> i + 16 < len\<close> lr by simp_all
      then have ne: "?rest \<noteq> []" by auto
      have one: "rows_of_16 ?rest = [?rest]"
        using pos by (simp add: rows_of_16_unfold(1) [OF ne] rows_of_16_unfold(2))
      have fits: "nat i + nat (len - i) \<le> length buf" using assms(1) less.prems by simp
      have idx: "nat (i + int j) = nat i + j" for j using less.prems(1) by simp
      have hexes: "map (\<lambda>j. print_hex (buf ! nat (i + int j))) [0..<nat (len - i)]
                  = map print_hex ?rest"
        using map_nth_take_drop [OF fits, of print_hex] lr by (simp add: idx)
      have chars: "map (\<lambda>j. print_char (buf ! nat (i + int j))) [0..<nat (len - i)]
                  = map print_char ?rest"
        using map_nth_take_drop [OF fits, of print_char] lr by (simp add: idx)
      have pad: "nat ((16 - len mod 16) mod 16) = 16 - length ?rest"
      proof -
        define m where "m = length ?rest"
        have "len = int m + 16 * int k" using lr True less.prems(1) by (simp add: m_def)
        then have lm: "len mod 16 = int m mod 16" by (simp only: mod_mult_self2)
        show ?thesis
        proof (cases "m = 16")
          case True
          then show ?thesis unfolding lm m_def [symmetric] by simp
        next
          case False
          with pos have "0 < m" "m < 16" unfolding m_def [symmetric] by simp_all
          then have m: "0 < int m" "int m < 16" by simp_all
          have "int m mod 16 = int m"
            by (rule mod_pos_pos_trivial) (use m in linarith)+
          moreover have "(16 - int m) mod 16 = 16 - int m"
            by (rule mod_pos_pos_trivial) (use m in linarith)+
          ultimately show ?thesis unfolding lm m_def [symmetric] by simp
        qed
      qed
      show ?thesis
        using stop True hexes chars addr one pad
        by (simp add: dump_last_row_def dump_row_printed print_address_def skip_empty_eq)
    qed
  qed
qed

lemma rows_of_16_concat: "concat (rows_of_16 xs) = xs"
proof (induction xs rule: rows_of_16.induct)
  case (1 xs)
  show ?case
  proof (cases "xs = []")
    case True
    then show ?thesis by (simp add: rows_of_16_unfold(2))
  next
    case False
    with 1 show ?thesis by (simp add: rows_of_16_unfold(1))
  qed
qed

lemma rows_of_16_lengths:
  "row \<in> set (rows_of_16 xs) \<Longrightarrow> 0 < length row \<and> length row \<le> 16"
proof (induction xs rule: rows_of_16.induct)
  case (1 xs)
  show ?case
  proof (cases "xs = []")
    case True
    with 1(2) show ?thesis by (simp add: rows_of_16_unfold(2))
  next
    case False
    with 1 show ?thesis
      by (auto simp: rows_of_16_unfold(1))
  qed
qed

lemma rows_of_16_full:
  "Suc k < length (rows_of_16 xs) \<Longrightarrow> length (rows_of_16 xs ! k) = 16"
proof (induction xs arbitrary: k rule: rows_of_16.induct)
  case (1 xs)
  show ?case
  proof (cases "xs = []")
    case True
    with 1(2) show ?thesis by (simp add: rows_of_16_unfold(2))
  next
    case False
    note u = rows_of_16_unfold(1) [OF False]
    show ?thesis
    proof (cases k)
      case 0
      with 1(2) have "rows_of_16 (drop 16 xs) \<noteq> []" unfolding u by auto
      then have "drop 16 xs \<noteq> []" by (auto simp: rows_of_16_unfold(2))
      then have "16 < length xs" by simp
      then show ?thesis unfolding u 0 by simp
    next
      case (Suc k')
      with 1(2) have "Suc k' < length (rows_of_16 (drop 16 xs))" unfolding u by simp
      from 1(1) [OF False this] show ?thesis unfolding u Suc by simp
    qed
  qed
qed

text \<open>
  Claim C8. For a buffer of \<open>len\<close> bytes the screen output is the concatenation of one
  row per 16 bytes, in order: the rows cut the buffer into pieces of 16 bytes and a last
  piece of 1 to 16; every byte is printed in two-digit hex (\<open>two_digit_hex\<close>, whatever
  the byte) and a blank; a row starts with its address (\<open>addr\<close> plus 16 for each row
  before it) and a colon exactly when \<open>backend\<close> is 0; and it ends with the panel of its
  bytes (each printable ASCII byte as itself, any other as a dot, behind three blanks for
  each byte missing from the row) exactly when \<open>dump_with_ascii\<close> is not 0.
\<close>

theorem handler__dump_screen_format:
  assumes "len = int (length buf)" and "length buf + 16 < 2 ^ 31"
  shows "handler__dump_screen vars fmt_p addr buf len
           = dump_format (backend (options vars) = 0) (dump_with_ascii (options vars) \<noteq> 0)
               fmt_p addr buf
         \<and> concat (rows_of_16 buf) = buf
         \<and> (\<forall>row \<in> set (rows_of_16 buf). 0 < length row \<and> length row \<le> 16)
         \<and> (\<forall>k. Suc k < length (rows_of_16 buf) \<longrightarrow> length (rows_of_16 buf ! k) = 16)"
proof -
  have "0 = 16 * int 0" "(0::int) \<le> len" using assms(1) by simp_all
  from dump_from [OF assms(1) this]
  have "handler__dump_screen vars fmt_p addr buf len
           = dump_format (backend (options vars) = 0) (dump_with_ascii (options vars) \<noteq> 0)
               fmt_p addr buf"
    by (simp add: handler__dump_screen_def dump_format_def)
  then show ?thesis
    using rows_of_16_concat rows_of_16_lengths rows_of_16_full by blast
qed

theorem handler__dump_screen_format_witness:
  "handler__dump_screen fresh_session (\<lambda>a. ''0x1000'') 0x1000 [0x41, 0xAB, 0x7F, 0xFF, 0x00] 5
     = ''0x1000: 41 AB 7F FF 00 '' @ replicate 33 CHR '' '' @ ''A....'' @ [CHR 0x0A]
   \<and> rows_of_16 [0x41, 0xAB, 0x7F, 0xFF, 0x00 :: 8 word] = [[0x41, 0xAB, 0x7F, 0xFF, 0x00]]"
proof -
  have "(5::int) = int (length [0x41, 0xAB, 0x7F, 0xFF, 0x00 :: 8 word])"
    "length [0x41, 0xAB, 0x7F, 0xFF, 0x00 :: 8 word] + 16 < 2 ^ 31"
    by simp_all
  from handler__dump_screen_format [OF this, of fresh_session "\<lambda>a. ''0x1000''" "0x1000"]
  have "handler__dump_screen fresh_session (\<lambda>a. ''0x1000'') 0x1000 [0x41, 0xAB, 0x7F, 0xFF, 0x00] 5
          = dump_format True True (\<lambda>a. ''0x1000'') 0x1000 [0x41, 0xAB, 0x7F, 0xFF, 0x00]"
    by (simp add: fresh_session_def)
  moreover have "dump_format True True (\<lambda>a. ''0x1000'') 0x1000 [0x41, 0xAB, 0x7F, 0xFF, 0x00]
          = ''0x1000: 41 AB 7F FF 00 '' @ replicate 33 CHR '' '' @ ''A....'' @ [CHR 0x0A]"
    by code_simp
  moreover have "rows_of_16 [0x41, 0xAB, 0x7F, 0xFF, 0x00 :: 8 word] = [[0x41, 0xAB, 0x7F, 0xFF, 0x00]]"
    by code_simp
  ultimately show ?thesis by simp
qed

end
